theory Spec2Isabelle
  imports Complex_Main "HOL-Library.Sublist" "HOL-Library.Word"
begin

section \<open>Data model\<close>

text \<open>
  The component \<^verbatim>\<open>TodoApp\<close> keeps its whole state in React \<^verbatim>\<open>useState\<close> cells. The
  cells become one record; every handler of the component becomes a function from the
  record (the state of the render the handler was created in) to the record the
  \<^verbatim>\<open>set...\<close> calls of that handler produce.

  A JavaScript string is a sequence of UTF-16 code units, here a list of 16-bit words.
  \<open>str\<close> writes such a string from a literal: each character stands for the code unit of
  its number (an ASCII literal denotes itself).

  Field names follow the interface \<^verbatim>\<open>Todo\<close>; \<^verbatim>\<open>id\<close>, \<^verbatim>\<open>text\<close> and the state cell
  \<^verbatim>\<open>filter\<close> carry the suffix \<open>_field\<close>. \<^verbatim>\<open>createdAt\<close> is the \<^verbatim>\<open>Date\<close> as its number
  of milliseconds since the epoch. The cell \<^verbatim>\<open>keyboardHeight\<close>, which only feeds the layout
  and which no handler below reads or writes, is left out.
\<close>

type_synonym code_unit = "16 word"

type_synonym js_string = "code_unit list"

definition str :: "string \<Rightarrow> js_string" where
  "str s = map (\<lambda>c. of_nat (of_char c)) s"

datatype category = Personal | Work | Shopping | Health

datatype priority = Low | Medium | High

datatype status_filter = All | Active | Completed

record Todo =
  id_field :: js_string
  text_field :: js_string
  completed :: bool
  category :: category
  priority :: priority
  createdAt :: int

record app_state =
  todos :: "Todo list"
  inputText :: js_string
  selectedCategory :: category
  selectedPriority :: priority
  filter_field :: status_filter
  searchQuery :: js_string
  editingId :: "js_string option"
  editingText :: js_string
  showAddForm :: bool

section \<open>The JavaScript string operations the handlers call\<close>

text \<open>
  \<^verbatim>\<open>String.prototype.trim\<close> removes white space and line terminators from both ends:
  TAB, LF, VT, FF, CR, SPACE, NO-BREAK SPACE, U+1680, U+2000 to U+200A, the line and
  paragraph separators U+2028 and U+2029, U+202F, U+205F, U+3000 and U+FEFF.
\<close>

definition isWhiteSpace :: "code_unit \<Rightarrow> bool" where
  "isWhiteSpace u =
     (u \<in> {0x09, 0x0A, 0x0B, 0x0C, 0x0D, 0x20, 0xA0, 0x1680, 0x2028, 0x2029, 0x202F, 0x205F,
            0x3000, 0xFEFF}
      \<or> (0x2000 \<le> u \<and> u \<le> 0x200A))"

definition trim :: "js_string \<Rightarrow> js_string" where
  "trim s = rev (dropWhile isWhiteSpace (rev (dropWhile isWhiteSpace s)))"

text \<open>
  \<^verbatim>\<open>String.prototype.includes\<close>: \<open>includes_str s q\<close> is \<^verbatim>\<open>s.includes(q)\<close>, the search for a
  position of \<open>s\<close> at which \<open>q\<close> starts, from the left.
\<close>

fun startsWith :: "js_string \<Rightarrow> js_string \<Rightarrow> bool" where
  "startsWith s [] = True"
| "startsWith [] (y # q) = False"
| "startsWith (x # s) (y # q) = (x = y \<and> startsWith s q)"

fun includes_str :: "js_string \<Rightarrow> js_string \<Rightarrow> bool" where
  "includes_str [] q = startsWith [] q"
| "includes_str (x # s) q = (startsWith (x # s) q \<or> includes_str s q)"

text \<open>
  \<^verbatim>\<open>Number.prototype.toString\<close> on the integer that \<^verbatim>\<open>Date.now()\<close> returns: plain decimal
  digits, with a minus sign for a clock set before the epoch.
\<close>

definition digitChar :: "nat \<Rightarrow> code_unit" where
  "digitChar d = str ''0123456789'' ! d"

fun digits :: "nat \<Rightarrow> js_string" where
  "digits n = (if n < 10 then [digitChar n] else digits (n div 10) @ [digitChar (n mod 10)])"

declare digits.simps [simp del]

definition toString :: "int \<Rightarrow> js_string" where
  "toString n = (if n < 0 then str ''-'' @ digits (nat (- n)) else digits (nat n))"

text \<open>
  \<^verbatim>\<open>String.prototype.toLowerCase\<close> is a function of the JavaScript runtime, the Unicode
  default case conversion. It is not unit by unit: the lower-case form of a capital
  sigma depends on the letters around it, and some letters have a lower-case form of
  two code units. The functions below that lower-case a string take the runtime's
  function as their first argument, and the theorems about them hold for every such
  function, with the facts they use about it as hypotheses.

  \<open>toLowerCaseLatinGreek\<close> gives the values of the runtime's function on the strings
  whose code units are all in the repertoire U+0000 to U+00FF (Basic Latin and Latin-1
  Supplement) and the Greek letters U+0391 to U+03A9 and U+03B1 to U+03C9: the simple
  lower-case mapping of each unit, and the final form U+03C2 for a capital sigma that
  comes after a cased letter (case-ignorable units between them set aside) and does not
  come before one. The properties Cased and Case_Ignorable are given for the units of the
  repertoire. On a string with a unit outside the repertoire the function stands for no
  value of the runtime; it is used below only on strings of the repertoire.
\<close>

definition lowerLatin1 :: "code_unit \<Rightarrow> code_unit" where
  "lowerLatin1 u =
     (if (0x41 \<le> u \<and> u \<le> 0x5A) \<or> (0xC0 \<le> u \<and> u \<le> 0xDE \<and> u \<noteq> 0xD7) then u + 0x20 else u)"

definition lowerUnit :: "code_unit \<Rightarrow> code_unit" where
  "lowerUnit u =
     (if u \<le> 0xFF then lowerLatin1 u
      else if (0x391 \<le> u \<and> u \<le> 0x3A9 \<and> u \<noteq> 0x3A2) then u + 0x20 else u)"

definition isCased :: "code_unit \<Rightarrow> bool" where
  "isCased u =
     ((0x41 \<le> u \<and> u \<le> 0x5A) \<or> (0x61 \<le> u \<and> u \<le> 0x7A) \<or> u \<in> {0xAA, 0xB5, 0xBA}
      \<or> (0xC0 \<le> u \<and> u \<le> 0xFF \<and> u \<noteq> 0xD7 \<and> u \<noteq> 0xF7)
      \<or> (0x391 \<le> u \<and> u \<le> 0x3A9 \<and> u \<noteq> 0x3A2) \<or> (0x3B1 \<le> u \<and> u \<le> 0x3C9))"

definition isCaseIgnorable :: "code_unit \<Rightarrow> bool" where
  "isCaseIgnorable u =
     (u \<in> {0x27, 0x2E, 0x3A, 0x5E, 0x60, 0xA8, 0xAD, 0xAF, 0xB4, 0xB7, 0xB8})"

text \<open>
  \<open>casedNext us\<close>: the units \<open>us\<close> begin with zero or more case-ignorable units and then
  a cased one. Applied to the units after a position, and to the units before it in
  reverse, it gives the two halves of the condition Final_Sigma.
\<close>

fun casedNext :: "js_string \<Rightarrow> bool" where
  "casedNext [] = False"
| "casedNext (u # us) = (isCased u \<or> (isCaseIgnorable u \<and> casedNext us))"

fun lowerFrom :: "js_string \<Rightarrow> js_string \<Rightarrow> js_string" where
  "lowerFrom before [] = []"
| "lowerFrom before (u # us) =
     (if u = 0x3A3 \<and> casedNext before \<and> \<not> casedNext us then 0x3C2 else lowerUnit u)
       # lowerFrom (u # before) us"

definition toLowerCaseLatinGreek :: "js_string \<Rightarrow> js_string" where
  "toLowerCaseLatinGreek s = lowerFrom [] s"

section \<open>Numbers\<close>

text \<open>
  A JavaScript number is an IEEE 754 binary64 value. A finite one is a rational, and the
  quotient and the product of two numbers are the exact results rounded to the nearest
  binary64 value, a tie going to the even significand. \<open>round64\<close> is this rounding, for
  a rational below the overflow threshold \<open>2 ^ 1024\<close>: the result is an integer multiple
  of \<open>2 ^ (e - 52)\<close>, where \<open>2 ^ e \<le> \<bar>x\<bar> < 2 ^ (e + 1)\<close> and \<open>e\<close> is not taken below
  \<open>- 1022\<close> (the subnormal range). The lengths of arrays are integers below \<open>2 ^ 32\<close> and
  are numbers as they are.
\<close>

fun bitLength :: "nat \<Rightarrow> nat" where
  "bitLength n = (if n = 0 then 0 else Suc (bitLength (n div 2)))"

declare bitLength.simps [simp del]

definition exponent :: "rat \<Rightarrow> int" where
  "exponent x =
     (if 1 \<le> x then int (bitLength (nat \<lfloor>x\<rfloor>)) - 1
      else - int (bitLength (nat (\<lceil>1 / x\<rceil> - 1))))"

definition roundTiesToEven :: "rat \<Rightarrow> int" where
  "roundTiesToEven m =
     (let f = \<lfloor>m\<rfloor>; r = m - of_int f
      in if r < 1 / 2 then f else if 1 / 2 < r then f + 1 else if even f then f else f + 1)"

definition round64 :: "rat \<Rightarrow> rat" where
  "round64 x =
     (if x = 0 then 0
      else let e = max (exponent \<bar>x\<bar>) (- 1022);
               ulp = power_int 2 (e - 52)
           in sgn x * of_int (roundTiesToEven (\<bar>x\<bar> / ulp)) * ulp)"

section \<open>Handlers\<close>

text \<open>
  \<^verbatim>\<open>addTodo\<close> reads the clock twice: \<^verbatim>\<open>Date.now()\<close> for the id and \<^verbatim>\<open>new Date()\<close> for
  \<^verbatim>\<open>createdAt\<close>. Both readings are parameters. The test \<^verbatim>\<open>if (inputText.trim())\<close> is the
  truthiness of a string: true exactly when it is not empty.
\<close>

definition addTodo :: "int \<Rightarrow> int \<Rightarrow> app_state \<Rightarrow> app_state" where
  "addTodo now created s =
     (if trim (inputText s) \<noteq> []
      then let newTodo = \<lparr> id_field = toString now,
                           text_field = trim (inputText s),
                           completed = False,
                           category = selectedCategory s,
                           priority = selectedPriority s,
                           createdAt = created \<rparr>
           in s\<lparr> todos := newTodo # todos s, inputText := [], showAddForm := False \<rparr>
      else s)"

definition toggleTodo :: "js_string \<Rightarrow> app_state \<Rightarrow> app_state" where
  "toggleTodo i s =
     s\<lparr> todos := map (\<lambda>todo. if id_field todo = i
                               then todo\<lparr> completed := \<not> completed todo \<rparr>
                               else todo) (todos s) \<rparr>"

text \<open>
  \<^verbatim>\<open>deleteTodo\<close> only opens the confirmation dialog \<^verbatim>\<open>Alert.alert\<close>. The dialog has the
  buttons Cancel and Delete; the \<^verbatim>\<open>onPress\<close> of Delete is a closure over \<^verbatim>\<open>id\<close> and over
  the \<^verbatim>\<open>todos\<close> of the render in which \<^verbatim>\<open>deleteTodo\<close> was called. \<open>deleteTodo i s\<close> is the
  open dialog, with the two captured values. \<open>pressButton b a s\<close> is the state after the
  user has pressed the button \<open>b\<close> of the dialog \<open>a\<close> in the state \<open>s\<close>: Cancel has no
  handler; Delete stores the captured list without the tasks of the captured id.
\<close>

datatype alert_button = CancelButton | DeleteButton

record alert =
  captured_id :: js_string
  captured_todos :: "Todo list"

definition deleteTodo :: "js_string \<Rightarrow> app_state \<Rightarrow> alert" where
  "deleteTodo i s = \<lparr> captured_id = i, captured_todos = todos s \<rparr>"

definition onPress :: "alert \<Rightarrow> app_state \<Rightarrow> app_state" where
  "onPress a s =
     s\<lparr> todos := filter (\<lambda>todo. id_field todo \<noteq> captured_id a) (captured_todos a) \<rparr>"

definition pressButton :: "alert_button \<Rightarrow> alert \<Rightarrow> app_state \<Rightarrow> app_state" where
  "pressButton b a s = (case b of CancelButton \<Rightarrow> s | DeleteButton \<Rightarrow> onPress a s)"

definition startEdit :: "Todo \<Rightarrow> app_state \<Rightarrow> app_state" where
  "startEdit todo s = s\<lparr> editingId := Some (id_field todo), editingText := text_field todo \<rparr>"

text \<open>
  In \<^verbatim>\<open>saveEdit\<close> the comparison \<^verbatim>\<open>todo.id === editingId\<close> is between a string and a
  string or \<^verbatim>\<open>null\<close>; no id is equal to \<^verbatim>\<open>null\<close>.
\<close>

definition saveEdit :: "app_state \<Rightarrow> app_state" where
  "saveEdit s =
     (let s' = (if trim (editingText s) \<noteq> []
                then s\<lparr> todos := map (\<lambda>todo. if Some (id_field todo) = editingId s
                                               then todo\<lparr> text_field := trim (editingText s) \<rparr>
                                               else todo) (todos s) \<rparr>
                else s)
      in s'\<lparr> editingId := None, editingText := [] \<rparr>)"

definition cancelEdit :: "app_state \<Rightarrow> app_state" where
  "cancelEdit s = s\<lparr> editingId := None, editingText := [] \<rparr>"

section \<open>Derived values\<close>

text \<open>
  The first argument of \<open>matchesSearch\<close> and \<open>filteredTodos\<close> is the runtime's
  \<^verbatim>\<open>String.prototype.toLowerCase\<close>.
\<close>

definition matchesFilter :: "status_filter \<Rightarrow> Todo \<Rightarrow> bool" where
  "matchesFilter f todo =
     (f = All \<or> (f = Active \<and> \<not> completed todo) \<or> (f = Completed \<and> completed todo))"

definition matchesSearch :: "(js_string \<Rightarrow> js_string) \<Rightarrow> js_string \<Rightarrow> Todo \<Rightarrow> bool" where
  "matchesSearch toLowerCase q todo = includes_str (toLowerCase (text_field todo)) (toLowerCase q)"

definition filteredTodos :: "(js_string \<Rightarrow> js_string) \<Rightarrow> app_state \<Rightarrow> Todo list" where
  "filteredTodos toLowerCase s =
     filter (\<lambda>todo. matchesFilter (filter_field s) todo
                   \<and> matchesSearch toLowerCase (searchQuery s) todo)
       (todos s)"

definition completedCount :: "app_state \<Rightarrow> nat" where
  "completedCount s = length (filter (\<lambda>todo. completed todo) (todos s))"

definition totalCount :: "app_state \<Rightarrow> nat" where
  "totalCount s = length (todos s)"

text \<open>
  The width of the progress bar, in percent:
  \<^verbatim>\<open>totalCount > 0 ? (completedCount / totalCount) * 100 : 0\<close>, a quotient and a product of
  numbers. The completion ratio is the quotient, \<open>round64 (completedCount / totalCount)\<close>.
\<close>

definition progressWidth :: "app_state \<Rightarrow> rat" where
  "progressWidth s =
     (if totalCount s > 0
      then round64 (round64 (of_nat (completedCount s) / of_nat (totalCount s)) * 100)
      else 0)"

section \<open>Start-up\<close>

text \<open>
  The initial values of the \<^verbatim>\<open>useState\<close> cells, which are the state of the first render,
  and the effect that runs once after the first render and stores the sample tasks. The
  three \<^verbatim>\<open>new Date()\<close> readings are parameters.
\<close>

definition initialState :: app_state where
  "initialState =
     \<lparr> todos = [], inputText = [], selectedCategory = Personal, selectedPriority = Medium,
       filter_field = All, searchQuery = [], editingId = None, editingText = [],
       showAddForm = False \<rparr>"

definition sampleTodos :: "int \<Rightarrow> int \<Rightarrow> int \<Rightarrow> Todo list" where
  "sampleTodos d1 d2 d3 =
     [ \<lparr> id_field = str ''1'', text_field = str ''Complete project presentation'',
         completed = False, category = Work, priority = High, createdAt = d1 \<rparr>,
       \<lparr> id_field = str ''2'', text_field = str ''Buy groceries for the week'',
         completed = False, category = Shopping, priority = Medium, createdAt = d2 \<rparr>,
       \<lparr> id_field = str ''3'', text_field = str ''Morning workout'',
         completed = True, category = Health, priority = Low, createdAt = d3 \<rparr> ]"

definition mountEffect :: "int \<Rightarrow> int \<Rightarrow> int \<Rightarrow> app_state \<Rightarrow> app_state" where
  "mountEffect d1 d2 d3 s = s\<lparr> todos := sampleTodos d1 d2 d3 \<rparr>"

section \<open>The operations of the specification\<close>

text \<open>
  \<open>create text category priority\<close> of the specification is the draft being set to these
  three values (\<^verbatim>\<open>setInputText\<close>, \<^verbatim>\<open>setSelectedCategory\<close>, \<^verbatim>\<open>setSelectedPriority\<close>)
  followed by \<^verbatim>\<open>addTodo\<close>. \<open>delete id\<close> of the specification is \<^verbatim>\<open>deleteTodo\<close> and the
  answer to its dialog, with no other handler between the two: the dialog is modal.
  \<open>run\<close> applies a sequence of these operations, each to the state the one before left.
\<close>

definition create :: "js_string \<Rightarrow> category \<Rightarrow> priority \<Rightarrow> int \<Rightarrow> int \<Rightarrow> app_state \<Rightarrow> app_state" where
  "create txt c p now created s =
     addTodo now created (s\<lparr> inputText := txt, selectedCategory := c, selectedPriority := p \<rparr>)"

definition delete :: "js_string \<Rightarrow> alert_button \<Rightarrow> app_state \<Rightarrow> app_state" where
  "delete i b s = pressButton b (deleteTodo i s) s"

datatype operation =
    Create js_string category priority int int
  | Toggle js_string
  | Delete js_string alert_button

fun step :: "operation \<Rightarrow> app_state \<Rightarrow> app_state" where
  "step (Create txt c p now created) s = create txt c p now created s"
| "step (Toggle i) s = toggleTodo i s"
| "step (Delete i b) s = delete i b s"

fun run :: "operation list \<Rightarrow> app_state \<Rightarrow> app_state" where
  "run [] s = s"
| "run (x # xs) s = run xs (step x s)"

definition ids :: "app_state \<Rightarrow> js_string list" where
  "ids s = map id_field (todos s)"

text \<open>
  A create operation keeps the ids apart when its text is blank (nothing is added) or
  when the decimal string of its clock reading is not yet an id of the store.
  \<open>freshClock ops s\<close> says so for every create of the sequence \<open>ops\<close>, each in the
  state it runs in.
\<close>

fun freshOp :: "operation \<Rightarrow> app_state \<Rightarrow> bool" where
  "freshOp (Create txt c p now created) s = (trim txt = [] \<or> toString now \<notin> set (ids s))"
| "freshOp (Toggle i) s = True"
| "freshOp (Delete i b) s = True"

fun freshClock :: "operation list \<Rightarrow> app_state \<Rightarrow> bool" where
  "freshClock [] s = True"
| "freshClock (x # xs) s = (freshOp x s \<and> freshClock xs (step x s))"


section \<open>The derivation function as the specification words it\<close>

text \<open>
  The status filter of the specification: \<open>all\<close> passes every task, \<open>active\<close> keeps
  the tasks with \<open>completed = false\<close>, \<open>completed\<close> those with \<open>completed = true\<close>.
\<close>

fun statusPasses :: "status_filter \<Rightarrow> Todo \<Rightarrow> bool" where
  "statusPasses All todo = True"
| "statusPasses Active todo = (completed todo = False)"
| "statusPasses Completed todo = (completed todo = True)"

text \<open>
  The text filter of the specification, a case-insensitive substring match. Two code
  units are the same letter when they are equal or are the capital and the small form of
  one letter; the letters are those of Basic Latin and Latin-1 Supplement, listed in
  pairs. Two strings are equal up to case when they have the same length and, position
  by position, the same letter; \<open>t\<close> contains \<open>q\<close> up to case when some segment of \<open>t\<close>,
  as long as \<open>q\<close>, is equal to \<open>q\<close> up to case.
\<close>

definition capitalLetters :: js_string where
  "capitalLetters =
     str ''ABCDEFGHIJKLMNOPQRSTUVWXYZ''
     @ [0xC0, 0xC1, 0xC2, 0xC3, 0xC4, 0xC5, 0xC6, 0xC7, 0xC8, 0xC9, 0xCA, 0xCB, 0xCC, 0xCD, 0xCE,
        0xCF, 0xD0, 0xD1, 0xD2, 0xD3, 0xD4, 0xD5, 0xD6, 0xD8, 0xD9, 0xDA, 0xDB, 0xDC, 0xDD, 0xDE]"

definition smallLetters :: js_string where
  "smallLetters =
     str ''abcdefghijklmnopqrstuvwxyz''
     @ [0xE0, 0xE1, 0xE2, 0xE3, 0xE4, 0xE5, 0xE6, 0xE7, 0xE8, 0xE9, 0xEA, 0xEB, 0xEC, 0xED, 0xEE,
        0xEF, 0xF0, 0xF1, 0xF2, 0xF3, 0xF4, 0xF5, 0xF6, 0xF8, 0xF9, 0xFA, 0xFB, 0xFC, 0xFD, 0xFE]"

definition sameLetter :: "code_unit \<Rightarrow> code_unit \<Rightarrow> bool" where
  "sameLetter a b =
     (a = b \<or> (a, b) \<in> set (zip capitalLetters smallLetters)
            \<or> (b, a) \<in> set (zip capitalLetters smallLetters))"

definition equalIgnoringCase :: "js_string \<Rightarrow> js_string \<Rightarrow> bool" where
  "equalIgnoringCase u v = list_all2 sameLetter u v"

definition containsIgnoringCase :: "js_string \<Rightarrow> js_string \<Rightarrow> bool" where
  "containsIgnoringCase t q =
     (length q \<le> length t \<and>
      (\<exists>k \<in> {0 .. length t - length q}. equalIgnoringCase (take (length q) (drop k t)) q))"

text \<open>
  \<open>latin1 s\<close>: every code unit of \<open>s\<close> is at most U+00FF. Two facts about the
  runtime's \<^verbatim>\<open>toLowerCase\<close> are hypotheses of statements below: that it gives the empty
  string for the empty string, and that on a string of code units up to U+00FF it is
  \<open>map lowerLatin1\<close> (no such unit has a lower-case form of two units or one that
  depends on its neighbours).
\<close>

definition latin1 :: "js_string \<Rightarrow> bool" where
  "latin1 s = list_all (\<lambda>u. u \<le> 0xFF) s"

section \<open>Facts about the rounding of numbers\<close>

lemma bitLength_bounds:
  "0 < n \<Longrightarrow> 2 ^ (bitLength n - 1) \<le> n \<and> n < 2 ^ bitLength n"
proof (induction n rule: bitLength.induct)
  case (1 n)
  show ?case
  proof (cases "n div 2 = 0")
    case True
    with "1.prems" have "n = 1" by (simp add: div_eq_0_iff) 
    then show ?thesis by (simp add: bitLength.simps)
  next
    case False
    with "1.IH" "1.prems"
    have ih: "2 ^ (bitLength (n div 2) - 1) \<le> n div 2" "n div 2 < 2 ^ bitLength (n div 2)"
      by simp_all
    have pos: "0 < bitLength (n div 2)"
      using False by (simp add: bitLength.simps [of "n div 2"])
    have bl: "bitLength n = Suc (bitLength (n div 2))"
      using "1.prems" by (simp add: bitLength.simps [of n])
    have "(2::nat) ^ bitLength (n div 2) = 2 * 2 ^ (bitLength (n div 2) - 1)"
      using pos by (cases "bitLength (n div 2)") simp_all
    with ih(1) have lo: "(2::nat) ^ bitLength (n div 2) \<le> n" by simp
    from ih(2) have hi: "n < 2 * 2 ^ bitLength (n div 2)" by simp
    from lo hi show ?thesis by (simp add: bl)
  qed
qed

lemma exponent_bounds:
  assumes "0 < x"
  shows "power_int 2 (exponent x) \<le> x \<and> x < power_int 2 (exponent x + 1)"
proof (cases "1 \<le> x")
  case True
  define N where "N = nat \<lfloor>x\<rfloor>"
  have N: "0 < N" "of_nat N \<le> x" "x < of_nat N + 1"
    using True by (simp_all add: N_def) linarith+
  have e: "exponent x = int (bitLength N) - 1"
    using True by (simp add: exponent_def N_def)
  from bitLength_bounds [OF N(1)]
  have b: "2 ^ (bitLength N - 1) \<le> N" "N < 2 ^ bitLength N" by simp_all
  have bpos: "0 < bitLength N"
    using N(1) by (simp add: bitLength.simps [of N])
  have "power_int (2::rat) (exponent x) = 2 ^ (bitLength N - 1)"
    using bpos by (simp add: e power_int_def nat_diff_distrib)
  also have "\<dots> = of_nat (2 ^ (bitLength N - 1))" by simp
  also have "\<dots> \<le> of_nat N" using b(1) by (simp only: of_nat_le_iff)
  finally have lo: "power_int 2 (exponent x) \<le> x" using N(2) by simp
  have "of_nat N + 1 \<le> (of_nat (2 ^ bitLength N) :: rat)"
    using b(2) by (metis Suc_leI of_nat_Suc of_nat_le_iff add.commute)
  then have "x < 2 ^ bitLength N" using N(3) by simp
  moreover have "power_int (2::rat) (exponent x + 1) = 2 ^ bitLength N"
    by (simp add: e)
  ultimately show ?thesis using lo by simp
next
  case False
  with assms have x: "0 < x" "x < 1" by simp_all
  define y where "y = 1 / x"
  have y: "1 < y" using x by (simp add: y_def)
  define M where "M = nat (\<lceil>y\<rceil> - 1)"
  have c: "of_int \<lceil>y\<rceil> - 1 < y" "y \<le> of_int \<lceil>y\<rceil>"
    by linarith+
  have ceil: "2 \<le> \<lceil>y\<rceil>" using y by linarith
  have M: "0 < M" "of_nat M < y" "y \<le> of_nat M + 1"
    using ceil c by (simp_all add: M_def)
  have e: "exponent x = - int (bitLength M)"
    using False by (simp add: exponent_def M_def y_def)
  from bitLength_bounds [OF M(1)]
  have b: "2 ^ (bitLength M - 1) \<le> M" "M < 2 ^ bitLength M" by simp_all
  have bpos: "0 < bitLength M"
    using M(1) by (simp add: bitLength.simps [of M])
  have "of_nat M + 1 \<le> (of_nat (2 ^ bitLength M) :: rat)"
    using b(2) by (metis Suc_leI of_nat_Suc of_nat_le_iff add.commute)
  with M(3) have yhi: "y \<le> 2 ^ bitLength M" by simp
  have "(of_nat (2 ^ (bitLength M - 1)) :: rat) \<le> of_nat M"
    using b(1) by (simp only: of_nat_le_iff)
  then have "(2::rat) ^ (bitLength M - 1) \<le> of_nat M" by simp
  with M(2) have ylo: "2 ^ (bitLength M - 1) < y" by linarith
  have xy: "x = 1 / y" using x by (simp add: y_def)
  have "power_int (2::rat) (exponent x) = 1 / 2 ^ bitLength M"
    by (simp add: e power_int_minus field_simps)
  also have "\<dots> \<le> 1 / y"
    using yhi y by (simp add: frac_le)
  finally have lo: "power_int 2 (exponent x) \<le> x" by (simp add: xy)
  have "power_int (2::rat) (exponent x + 1) = 1 / 2 ^ (bitLength M - 1)"
  proof -
    have "exponent x + 1 = - int (bitLength M - 1)"
      using bpos by (simp add: e)
    then show ?thesis by (simp add: power_int_minus field_simps)
  qed
  moreover have "1 / y < 1 / 2 ^ (bitLength M - 1)"
    using ylo by (simp add: frac_less2)
  ultimately have "x < power_int 2 (exponent x + 1)" by (simp add: xy)
  with lo show ?thesis by simp
qed

lemma exponent_unique:
  assumes "power_int 2 e \<le> x" and "x < power_int 2 (e + 1)"
  shows "exponent x = e"
proof -
  have "0 < power_int (2::rat) e" by simp
  with assms(1) have pos: "0 < x" by linarith
  from exponent_bounds [OF pos]
  have b: "power_int 2 (exponent x) \<le> x" "x < power_int 2 (exponent x + 1)" by simp_all
  have "\<not> e < exponent x"
  proof
    assume "e < exponent x"
    then have "power_int (2::rat) (e + 1) \<le> power_int 2 (exponent x)"
      by (intro power_int_increasing) simp_all
    with b(1) assms(2) show False by simp
  qed
  moreover have "\<not> exponent x < e"
  proof
    assume "exponent x < e"
    then have "power_int (2::rat) (exponent x + 1) \<le> power_int 2 e"
      by (intro power_int_increasing) simp_all
    with b(2) assms(1) show False by simp
  qed
  ultimately show ?thesis by simp
qed

lemma roundTiesToEven_near: "\<bar>of_int (roundTiesToEven m) - m\<bar> \<le> 1 / 2"
proof -
  define f where "f = \<lfloor>m\<rfloor>"
  have f: "of_int f \<le> m" "m < of_int f + 1"
    unfolding f_def by linarith+
  consider "m - of_int f < 1 / 2" | "1 / 2 < m - of_int f" | "m - of_int f = 1 / 2"
    by linarith
  then show ?thesis
  proof cases
    case 1
    then have "roundTiesToEven m = f" by (simp add: roundTiesToEven_def Let_def f_def)
    with 1 f show ?thesis by simp
  next
    case 2
    then have "roundTiesToEven m = f + 1" by (simp add: roundTiesToEven_def Let_def f_def)
    with 2 f show ?thesis by simp
  next
    case 3
    then have "roundTiesToEven m = f \<or> roundTiesToEven m = f + 1"
      by (simp add: roundTiesToEven_def Let_def f_def)
    with 3 f show ?thesis by auto
  qed
qed

lemma roundTiesToEven_unique:
  assumes "\<bar>of_int n - m\<bar> < 1 / 2"
  shows "roundTiesToEven m = n"
proof -
  have "\<bar>of_int (roundTiesToEven m) - (of_int n :: rat)\<bar> < 1"
    using roundTiesToEven_near [of m] assms by linarith
  then have "\<bar>(of_int (roundTiesToEven m - n) :: rat)\<bar> < 1" by simp
  then have "\<bar>roundTiesToEven m - n\<bar> < 1"
    by (metis of_int_abs of_int_less_1_iff)
  then show ?thesis by simp
qed

lemma round64_value:
  assumes "power_int 2 e \<le> x" and "x < power_int 2 (e + 1)" and "- 1022 \<le> e"
    and "\<bar>of_int n - x / power_int 2 (e - 52)\<bar> < 1 / 2"
  shows "round64 x = of_int n * power_int 2 (e - 52)"
proof -
  have "0 < power_int (2::rat) e" by simp
  with assms(1) have pos: "0 < x" by linarith
  have a: "\<bar>x\<bar> = x" "sgn x = 1" "x \<noteq> 0"
    using pos by simp_all
  have e: "max (exponent x) (- 1022) = e"
    using assms(1,2,3) by (simp add: exponent_unique)
  have r: "roundTiesToEven (x / power_int 2 (e - 52)) = n"
    using assms(4) by (rule roundTiesToEven_unique)
  show ?thesis
    unfolding round64_def Let_def a(1,2) e r using a(3) by simp
qed

lemma round64_error:
  assumes "power_int 2 (- 1022) \<le> x"
  shows "\<bar>round64 x - x\<bar> \<le> x * power_int 2 (- 53)"
proof -
  have "0 < power_int (2::rat) (- 1022)" by simp
  with assms have pos: "0 < x" by linarith
  define e where "e = exponent x"
  from exponent_bounds [OF pos]
  have b: "power_int 2 e \<le> x" "x < power_int 2 (e + 1)" by (simp_all add: e_def)
  have "\<not> e + 1 \<le> - 1022"
  proof
    assume "e + 1 \<le> - 1022"
    then have "power_int (2::rat) (e + 1) \<le> power_int 2 (- 1022)"
      by (intro power_int_increasing) simp_all
    with b(2) assms show False by linarith
  qed
  then have range: "- 1022 \<le> e" by simp
  define ulp :: rat where "ulp = power_int 2 (e - 52)"
  have ulp: "0 < ulp" by (simp add: ulp_def)
  define n where "n = roundTiesToEven (x / ulp)"
  have a: "\<bar>x\<bar> = x" "sgn x = 1" "x \<noteq> 0"
    using pos by simp_all
  have m: "max (exponent x) (- 1022) = e"
    using range by (simp add: e_def)
  have r: "round64 x = of_int n * ulp"
    unfolding round64_def Let_def a(1,2) m ulp_def n_def using a(3) by simp
  have "\<bar>of_int n - x / ulp\<bar> \<le> 1 / 2"
    unfolding n_def by (rule roundTiesToEven_near)
  then have "\<bar>of_int n - x / ulp\<bar> * ulp \<le> 1 / 2 * ulp"
    using ulp by (intro mult_right_mono) simp_all
  moreover have "\<bar>of_int n - x / ulp\<bar> * ulp = \<bar>of_int n * ulp - x\<bar>"
  proof -
    have "\<bar>of_int n - x / ulp\<bar> * ulp = \<bar>(of_int n - x / ulp) * ulp\<bar>"
      using ulp by (simp add: abs_mult)
    also have "(of_int n - x / ulp) * ulp = of_int n * ulp - x"
      using ulp by (simp add: field_simps)
    finally show ?thesis .
  qed
  ultimately have half: "\<bar>round64 x - x\<bar> \<le> ulp / 2" by (simp add: r)
  have "ulp = power_int 2 e * power_int 2 (- 52)"
    unfolding ulp_def by (subst power_int_add [symmetric]) simp_all
  then have "ulp / 2 = power_int 2 e * power_int 2 (- 53)"
    by simp
  also have "\<dots> \<le> x * power_int 2 (- 53)"
    using b(1) by (intro mult_right_mono) simp_all
  finally show ?thesis using half by linarith
qed

lemma round64_third: "round64 (1 / 3) = 6004799503160661 / 18014398509481984"
  using round64_value [of "- 2" "1 / 3" 6004799503160661] by simp

lemma round64_one: "round64 1 = 1"
  using round64_value [of 0 1 4503599627370496] by simp

lemma round64_hundred: "round64 100 = 100"
  using round64_value [of 6 100 7036874417766400] by simp

lemma round64_zero: "round64 0 = 0"
  by (simp add: round64_def)

lemma ratio_error:
  assumes "0 < c" and "t < 2 ^ 32" and "0 < t"
  shows "\<bar>round64 (of_nat c / of_nat t) - of_nat c / of_nat t\<bar>
         \<le> (of_nat c / of_nat t) / 2 ^ 53"
proof -
  let ?x = "of_nat c / of_nat t :: rat"
  have "(of_nat t :: rat) \<le> of_nat (2 ^ 32)"
    using assms(2) by (simp only: of_nat_le_iff)
  then have t: "(of_nat t :: rat) \<le> 2 ^ 32" by simp
  have tpos: "0 < (of_nat t :: rat)" using assms(3) by simp
  have "(1::rat) \<le> of_nat c" using assms(1) by simp
  then have "1 / 2 ^ 32 \<le> ?x"
    using t tpos by (intro frac_le) simp_all
  moreover have "power_int (2::rat) (- 1022) \<le> power_int 2 (- 32)"
    by (intro power_int_increasing) simp_all
  moreover have "power_int (2::rat) (- 32) = 1 / 2 ^ 32"
    by (simp add: power_int_minus field_simps)
  ultimately have "power_int 2 (- 1022) \<le> ?x" by linarith
  from round64_error [OF this] show ?thesis
    by (simp add: power_int_minus field_simps)
qed

text \<open>
  The product of the binary64 value nearest to 1/3 and 100 is
  150119987579016525 / 4503599627370496; as a number it is rounded once more.
\<close>

lemma round64_width_third:
  "round64 (150119987579016525 / 4503599627370496) = 2345624805922133 / 70368744177664"
  using round64_value [of 5 "150119987579016525 / 4503599627370496" 4691249611844266] by simp

section \<open>Facts about the string operations\<close>

lemma letters_facts:
  "distinct capitalLetters" "distinct smallLetters"
  "length capitalLetters = length smallLetters"
  "set capitalLetters \<inter> set smallLetters = {}"
  by (simp_all add: capitalLetters_def smallLetters_def str_def)

lemma capitalLetters_upt:
  "capitalLetters = map of_nat ([65..<91] @ [192..<215] @ [216..<223])"
  by (simp add: capitalLetters_def str_def upt_rec_numeral)

lemma word_in_map_of_nat:
  fixes a :: code_unit
  assumes "unat a \<in> set ns"
  shows "a \<in> set (map of_nat ns)"
proof -
  from assms have "of_nat (unat a) \<in> (of_nat ` set ns :: code_unit set)"
    by (rule imageI)
  then show ?thesis by simp
qed

lemma capitalLetters_range:
  assumes "(0x41 \<le> a \<and> a \<le> 0x5A) \<or> (0xC0 \<le> a \<and> a \<le> 0xDE \<and> a \<noteq> 0xD7)"
  shows "a \<in> set capitalLetters"
proof -
  have ne: "unat a \<noteq> 215" if "a \<noteq> 0xD7"
  proof
    assume "unat a = 215"
    then have "of_nat (unat a) = (of_nat 215 :: code_unit)" by simp
    then have "a = 0xD7" by simp
    with that show False by simp
  qed
  from assms have "unat a \<in> set ([65..<91] @ [192..<215] @ [216..<223])"
    using ne by (simp only: set_append set_upt atLeastLessThan_iff Un_iff word_le_nat_alt)
      (simp, arith)
  then show ?thesis
    unfolding capitalLetters_upt by (rule word_in_map_of_nat)
qed

lemma lowerLatin1_capital:
  "a \<in> set capitalLetters \<Longrightarrow> map_of (zip capitalLetters smallLetters) a = Some (lowerLatin1 a)"
  by (auto simp: capitalLetters_def smallLetters_def str_def lowerLatin1_def)

lemma lowerLatin1_other:
  "a \<notin> set capitalLetters \<Longrightarrow> lowerLatin1 a = a"
  using capitalLetters_range [of a] by (auto simp: lowerLatin1_def)

lemma zip_letters_iff:
  "(a, b) \<in> set (zip capitalLetters smallLetters) \<longleftrightarrow> a \<in> set capitalLetters \<and> b = lowerLatin1 a"
proof -
  have d: "distinct (map fst (zip capitalLetters smallLetters))"
    using letters_facts(1,3) by simp
  show ?thesis
  proof
    assume m: "(a, b) \<in> set (zip capitalLetters smallLetters)"
    then have c: "a \<in> set capitalLetters" by (rule set_zip_leftD)
    from m d have "map_of (zip capitalLetters smallLetters) a = Some b" by simp
    with lowerLatin1_capital [OF c] c show "a \<in> set capitalLetters \<and> b = lowerLatin1 a" by simp
  next
    assume "a \<in> set capitalLetters \<and> b = lowerLatin1 a"
    with lowerLatin1_capital [of a] show "(a, b) \<in> set (zip capitalLetters smallLetters)"
      by (simp add: map_of_SomeD)
  qed
qed

lemma lowerLatin1_small:
  assumes "a \<in> set capitalLetters"
  shows "lowerLatin1 a \<in> set smallLetters" and "lowerLatin1 a \<notin> set capitalLetters"
proof -
  from assms have "(a, lowerLatin1 a) \<in> set (zip capitalLetters smallLetters)"
    by (simp add: zip_letters_iff)
  then show "lowerLatin1 a \<in> set smallLetters" by (rule set_zip_rightD)
  with letters_facts(4) show "lowerLatin1 a \<notin> set capitalLetters" by blast
qed

lemma lowerLatin1_inj:
  assumes "a \<in> set capitalLetters" "b \<in> set capitalLetters" "lowerLatin1 a = lowerLatin1 b"
  shows "a = b"
proof -
  from assms have "(a, lowerLatin1 a) \<in> set (zip capitalLetters smallLetters)"
    "(b, lowerLatin1 a) \<in> set (zip capitalLetters smallLetters)"
    by (simp_all add: zip_letters_iff)
  then obtain i j where
    i: "capitalLetters ! i = a" "smallLetters ! i = lowerLatin1 a" "i < length smallLetters" and
    j: "capitalLetters ! j = b" "smallLetters ! j = lowerLatin1 a" "j < length smallLetters"
    by (auto simp: in_set_zip)
  from i(2,3) j(2,3) letters_facts(2) have "i = j"
    by (metis nth_eq_iff_index_eq)
  with i(1) j(1) show ?thesis by simp
qed

lemma sameLetter_iff: "sameLetter a b \<longleftrightarrow> lowerLatin1 a = lowerLatin1 b"
proof
  assume "sameLetter a b"
  then consider "a = b" | "a \<in> set capitalLetters" "b = lowerLatin1 a"
    | "b \<in> set capitalLetters" "a = lowerLatin1 b"
    by (auto simp: sameLetter_def zip_letters_iff)
  then show "lowerLatin1 a = lowerLatin1 b"
  proof cases
    case 1
    then show ?thesis by simp
  next
    case 2
    then show ?thesis
      using lowerLatin1_small(2) [of a] lowerLatin1_other [of "lowerLatin1 a"] by simp
  next
    case 3
    then show ?thesis
      using lowerLatin1_small(2) [of b] lowerLatin1_other [of "lowerLatin1 b"] by simp
  qed
next
  assume eq: "lowerLatin1 a = lowerLatin1 b"
  show "sameLetter a b"
  proof (cases "a \<in> set capitalLetters")
    case a: True
    show ?thesis
    proof (cases "b \<in> set capitalLetters")
      case True
      from lowerLatin1_inj [OF a True eq] have "a = b" .
      then show ?thesis by (simp add: sameLetter_def)
    next
      case False
      with eq have "b = lowerLatin1 a" by (simp add: lowerLatin1_other)
      with a show ?thesis by (simp add: sameLetter_def zip_letters_iff)
    qed
  next
    case a: False
    show ?thesis
    proof (cases "b \<in> set capitalLetters")
      case True
      from a eq have "a = lowerLatin1 b" by (simp add: lowerLatin1_other)
      with True show ?thesis by (simp add: sameLetter_def zip_letters_iff)
    next
      case False
      with a eq have "a = b" by (simp add: lowerLatin1_other)
      then show ?thesis by (simp add: sameLetter_def)
    qed
  qed
qed

lemma equalIgnoringCase_iff:
  "equalIgnoringCase u v \<longleftrightarrow> map lowerLatin1 u = map lowerLatin1 v"
proof -
  have "sameLetter = (\<lambda>a b. lowerLatin1 a = lowerLatin1 b)"
    by (intro ext) (rule sameLetter_iff)
  then have "list_all2 sameLetter u v
        \<longleftrightarrow> list_all2 (=) (map lowerLatin1 u) (map lowerLatin1 v)"
    by (simp add: list_all2_map1 list_all2_map2)
  then show ?thesis
    by (simp add: equalIgnoringCase_def list_all2_eq)
qed

lemma startsWith_iff: "startsWith s q \<longleftrightarrow> (\<exists>ss. s = q @ ss)"
  by (induction s q rule: startsWith.induct) auto

lemma includes_str_iff: "includes_str s q \<longleftrightarrow> (\<exists>ps ss. s = ps @ q @ ss)"
proof (induction s)
  case Nil
  show ?case by (simp add: startsWith_iff)
next
  case (Cons x s)
  have "(\<exists>ps ss. x # s = ps @ q @ ss) \<longleftrightarrow>
        (\<exists>ss. x # s = q @ ss) \<or> (\<exists>ps ss. s = ps @ q @ ss)"
    by (auto simp: Cons_eq_append_conv)
  with Cons show ?case by (simp add: startsWith_iff)
qed

lemma includes_str_Nil: "includes_str s []"
  by (cases s) simp_all

text \<open>
  For a lower-casing that works unit by unit, looking for the lower-cased query in the
  lower-cased text is the case-insensitive substring match of the specification.
\<close>

lemma includes_map_lowerLatin1:
  "includes_str (map lowerLatin1 t) (map lowerLatin1 q) \<longleftrightarrow> containsIgnoringCase t q"
proof
  assume "includes_str (map lowerLatin1 t) (map lowerLatin1 q)"
  then obtain ps ss where e: "map lowerLatin1 t = ps @ map lowerLatin1 q @ ss"
    by (auto simp: includes_str_iff)
  have len: "length t = length ps + length q + length ss"
    using arg_cong [OF e, of length] by simp
  have "take (length q) (drop (length ps) (map lowerLatin1 t)) = map lowerLatin1 q"
    by (simp add: e)
  then have "map lowerLatin1 (take (length q) (drop (length ps) t)) = map lowerLatin1 q"
    by (simp add: take_map drop_map)
  then have "equalIgnoringCase (take (length q) (drop (length ps) t)) q"
    by (simp add: equalIgnoringCase_iff)
  moreover have "length ps \<le> length t - length q" "length q \<le> length t"
    using len by simp_all
  ultimately show "containsIgnoringCase t q"
    unfolding containsIgnoringCase_def by auto
next
  assume "containsIgnoringCase t q"
  then obtain k where k: "length q \<le> length t" "k \<le> length t - length q"
    and eq: "map lowerLatin1 (take (length q) (drop k t)) = map lowerLatin1 q"
    by (auto simp: containsIgnoringCase_def equalIgnoringCase_iff)
  have "t = take k t @ take (length q) (drop k t) @ drop (length q) (drop k t)"
    by (metis append_take_drop_id)
  then have "map lowerLatin1 t = map lowerLatin1 (take k t)
      @ map lowerLatin1 (take (length q) (drop k t))
      @ map lowerLatin1 (drop (length q) (drop k t))"
    by (metis map_append)
  with eq show "includes_str (map lowerLatin1 t) (map lowerLatin1 q)"
    unfolding includes_str_iff by metis
qed

lemma containsIgnoringCase_empty: "containsIgnoringCase t []"
  by (auto simp: containsIgnoringCase_def equalIgnoringCase_def)

lemma containsIgnoringCase_verbatim:
  "includes_str t q \<Longrightarrow> containsIgnoringCase t q"
proof -
  assume "includes_str t q"
  then obtain ps ss where "t = ps @ q @ ss" by (auto simp: includes_str_iff)
  then have "map lowerLatin1 t = map lowerLatin1 ps @ map lowerLatin1 q @ map lowerLatin1 ss"
    by simp
  then have "includes_str (map lowerLatin1 t) (map lowerLatin1 q)"
    unfolding includes_str_iff by blast
  then show ?thesis by (simp add: includes_map_lowerLatin1)
qed

lemma matchesFilter_iff: "matchesFilter f todo \<longleftrightarrow> statusPasses f todo"
  by (cases f) (simp_all add: matchesFilter_def)

subsection \<open>The values of toLowerCase on the repertoire\<close>

lemma lowerFrom_latin1: "latin1 s \<Longrightarrow> lowerFrom before s = map lowerLatin1 s"
proof (induction s arbitrary: before)
  case Nil
  then show ?case by simp
next
  case (Cons u us)
  then have u: "u \<le> 0xFF" and rest: "latin1 us" by (simp_all add: latin1_def)
  from u have "u \<noteq> 0x3A3" by auto
  with u Cons.IH [OF rest] show ?case by (simp add: lowerUnit_def)
qed

lemma toLowerCaseLatinGreek_latin1:
  "latin1 s \<Longrightarrow> toLowerCaseLatinGreek s = map lowerLatin1 s"
  by (simp add: toLowerCaseLatinGreek_def lowerFrom_latin1)

lemma toLowerCaseLatinGreek_Nil: "toLowerCaseLatinGreek [] = []"
  by (simp add: toLowerCaseLatinGreek_def)

section \<open>The ids of the store under each operation\<close>

lemma ids_toggleTodo: "ids (toggleTodo i s) = ids s"
  by (simp add: ids_def toggleTodo_def comp_def if_distrib [of id_field] cong: if_cong)

lemma ids_pressButton:
  "ids (pressButton DeleteButton (deleteTodo i s0) s) = filter (\<lambda>j. j \<noteq> i) (ids s0)"
  by (simp add: ids_def pressButton_def onPress_def deleteTodo_def filter_map comp_def)

lemma ids_delete:
  "ids (delete i b s) =
     (case b of CancelButton \<Rightarrow> ids s | DeleteButton \<Rightarrow> filter (\<lambda>j. j \<noteq> i) (ids s))"
  by (cases b) (simp_all add: delete_def ids_pressButton, simp add: pressButton_def)

lemma ids_create:
  "ids (create txt c p now created s) = (if trim txt \<noteq> [] then toString now # ids s else ids s)"
  by (simp add: ids_def create_def addTodo_def Let_def)

lemma distinct_ids_step:
  assumes "distinct (ids s)" and "freshOp x s"
  shows "distinct (ids (step x s))"
proof (cases x)
  case (Create tx c p now created)
  with assms show ?thesis by (auto simp: ids_create)
next
  case (Toggle i)
  with assms show ?thesis by (simp add: ids_toggleTodo)
next
  case (Delete i b)
  with assms show ?thesis by (cases b) (simp_all add: ids_delete)
qed

lemma distinct_ids_run:
  "distinct (ids s) \<Longrightarrow> freshClock ops s \<Longrightarrow> distinct (ids (run ops s))"
proof (induction ops arbitrary: s)
  case Nil
  then show ?case by simp
next
  case (Cons x xs)
  from Cons.prems have "distinct (ids (step x s))" and "freshClock xs (step x s)"
    by (simp_all add: distinct_ids_step)
  then show ?case using Cons.IH by simp
qed

lemma freshClock_take: "freshClock ops s \<Longrightarrow> freshClock (take n ops) s"
proof (induction ops arbitrary: s n)
  case Nil
  then show ?case by simp
next
  case (Cons x xs)
  then show ?case by (cases n) simp_all
qed






section \<open>Facts about the visible sequence\<close>

lemma filteredTodos_All:
  "filteredTodos toLowerCase (s\<lparr> filter_field := All \<rparr>) =
     filter (\<lambda>todo. includes_str (toLowerCase (text_field todo)) (toLowerCase (searchQuery s)))
       (todos s)"
  by (simp add: filteredTodos_def matchesFilter_def matchesSearch_def)

lemma toString_1700000000000:
  "toString 1700000000000 = str ''1700000000000''"
  "toString 1700000000001 = str ''1700000000001''"
  by (simp_all add: toString_def digits.simps digitChar_def str_def)

section \<open>Values on the sample strings\<close>

lemma sample_texts_latin1:
  "latin1 (str ''Complete project presentation'')"
  "latin1 (str ''Buy groceries for the week'')"
  "latin1 (str ''Morning workout'')"
  "latin1 (str ''Call the bank'')"
  "latin1 (str ''milk'')"
  "latin1 (str ''GROCERIES'')"
  by (simp_all add: latin1_def str_def)

lemma milk_no_match:
  "\<not> includes_str (map lowerLatin1 (str ''Call the bank'')) (map lowerLatin1 (str ''milk''))"
  "\<not> includes_str (map lowerLatin1 (str ''Complete project presentation''))
        (map lowerLatin1 (str ''milk''))"
  "\<not> includes_str (map lowerLatin1 (str ''Buy groceries for the week''))
        (map lowerLatin1 (str ''milk''))"
  "\<not> includes_str (map lowerLatin1 (str ''Morning workout'')) (map lowerLatin1 (str ''milk''))"
  by (simp_all add: lowerLatin1_def str_def)

lemma groceries_match:
  "includes_str (map lowerLatin1 (str ''Buy groceries for the week''))
     (map lowerLatin1 (str ''GROCERIES''))"
  by (simp add: lowerLatin1_def str_def)

lemma trim_samples:
  "trim (str ''Call the bank'') = str ''Call the bank''"
  "trim (str ''  Complete project presentation '') = str ''Complete project presentation''"
  "trim (str ''   '') = []"
  "trim (str ''  '') = []"
  "trim (str '' Buy milk '') = str ''Buy milk''"
  "trim (str ''Pay rent'') = str ''Pay rent''"
  by (simp_all add: trim_def isWhiteSpace_def str_def)

lemma str_not_Nil:
  "str ''Call the bank'' \<noteq> []" "str ''Complete project presentation'' \<noteq> []"
  "str ''Pay rent'' \<noteq> []"
  by (simp_all add: str_def)

lemma greek_lower:
  "toLowerCaseLatinGreek [0x39F, 0x394, 0x39F, 0x3A3] = [0x3BF, 0x3B4, 0x3BF, 0x3C2]"
  "toLowerCaseLatinGreek [0x3A3] = [0x3C3]"
  by (simp_all add: toLowerCaseLatinGreek_def lowerUnit_def lowerLatin1_def isCased_def
      isCaseIgnorable_def)

section \<open>Uniqueness of ids\<close>

text \<open>
  C1, as the specification states it: along every sequence of create, toggle and delete
  operations that starts in a store with unique ids, the ids stay unique. The id of a
  new task is the decimal string of \<^verbatim>\<open>Date.now()\<close>, so two creates that read the same
  millisecond give two tasks the same id: the statement fails for the start-up store
  and two creates at the clock reading 1700000000000.
\<close>

theorem ids_unique_counterexample:
  "distinct (ids (mountEffect 0 0 0 initialState)) \<and>
   \<not> distinct (ids (run [Create (str ''Pay rent'') Personal Medium 1700000000000 1700000000000,
                          Create (str ''Call the bank'') Work High 1700000000000 1700000000001]
                       (mountEffect 0 0 0 initialState)))"
  by (simp add: ids_create)
    (simp add: ids_def mountEffect_def sampleTodos_def trim_def isWhiteSpace_def str_def)

text \<open>
  C1, amended: toggle and delete never add an id, and a create keeps the ids unique when
  its text is blank or the decimal string of its clock reading is not yet an id of the
  store. Along a sequence of operations whose creates all meet this condition, started in
  a store with unique ids, the ids are unique after every prefix of the sequence.
\<close>

theorem ids_unique_fresh_clock:
  assumes "distinct (ids s)" and "freshClock ops s"
  shows "\<forall>n. distinct (ids (run (take n ops) s))"
  using assms by (simp add: distinct_ids_run freshClock_take)

theorem ids_unique_fresh_clock_witness:
  "distinct (ids (mountEffect 0 0 0 initialState)) \<and>
   freshClock [Create (str ''Pay rent'') Personal Medium 1700000000000 1700000000000,
               Toggle (str ''2''), Delete (str ''3'') DeleteButton,
               Create (str ''Call the bank'') Work High 1700000000001 1700000000001]
              (mountEffect 0 0 0 initialState) \<and>
   distinct (ids (run (take 4 [Create (str ''Pay rent'') Personal Medium 1700000000000 1700000000000,
               Toggle (str ''2''), Delete (str ''3'') DeleteButton,
               Create (str ''Call the bank'') Work High 1700000000001 1700000000001])
              (mountEffect 0 0 0 initialState)))"
proof -
  let ?s = "mountEffect 0 0 0 initialState"
  let ?ops = "[Create (str ''Pay rent'') Personal Medium 1700000000000 1700000000000,
               Toggle (str ''2''), Delete (str ''3'') DeleteButton,
               Create (str ''Call the bank'') Work High 1700000000001 1700000000001]"
  have d: "distinct (ids ?s)"
    by (simp add: ids_def mountEffect_def sampleTodos_def str_def)
  have f: "freshClock ?ops ?s"
    by (simp add: toString_1700000000000 ids_create ids_toggleTodo ids_delete)
      (simp add: ids_def mountEffect_def sampleTodos_def str_def)
  from ids_unique_fresh_clock [OF d f] have "distinct (ids (run (take 4 ?ops) ?s))" by blast
  with d f show ?thesis by blast
qed

section \<open>Creating a task\<close>

text \<open>
  C2: when the draft text is empty after trimming (empty, or white space only),
  \<^verbatim>\<open>addTodo\<close> changes nothing: the state, with its task list, draft text and add-panel
  flag, is the one before. So a create with such a text leaves the task list, the
  add-panel flag and the number of tasks as they were, and the draft text as typed.
\<close>

theorem addTodo_blank_noop:
  assumes "trim txt = []"
  shows "addTodo now created (s\<lparr> inputText := txt \<rparr>) = s\<lparr> inputText := txt \<rparr>
         \<and> todos (create txt c p now created s) = todos s
         \<and> inputText (create txt c p now created s) = txt
         \<and> showAddForm (create txt c p now created s) = showAddForm s
         \<and> totalCount (create txt c p now created s) = totalCount s"
  using assms by (simp add: addTodo_def create_def totalCount_def)

theorem addTodo_blank_noop_witness:
  "trim (str ''   '') = []
   \<and> addTodo 1700000000000 1700000000000 (mountEffect 0 0 0 initialState\<lparr> inputText := str ''   '' \<rparr>)
       = mountEffect 0 0 0 initialState\<lparr> inputText := str ''   '' \<rparr>
   \<and> totalCount (create (str ''   '') Work High 1700000000000 1700000000000
         (mountEffect 0 0 0 initialState))
       = totalCount (mountEffect 0 0 0 initialState)"
proof -
  have blank: "trim (str ''   '') = []"
    by (simp add: trim_def isWhiteSpace_def str_def)
  from addTodo_blank_noop [OF blank, of 1700000000000 1700000000000 "mountEffect 0 0 0 initialState"
      Work High] blank
  show ?thesis by blast
qed

text \<open>
  C3, as the specification states it: after a create with a text that is not blank the
  new task is the first of the visible sequence under the filter \<open>all\<close>. The visible
  sequence also passes the search filter: with the search query \<open>milk\<close> in the start-up
  store, a create with the text \<open>Call the bank\<close> leaves the visible sequence empty.
\<close>

theorem create_visible_counterexample:
  "trim (str ''Call the bank'') \<noteq> [] \<and>
   filteredTodos toLowerCaseLatinGreek
     ((create (str ''Call the bank'') Work High 1700000000000 1700000000000
         (mountEffect 0 0 0 initialState\<lparr> searchQuery := str ''milk'' \<rparr>))
      \<lparr> filter_field := All \<rparr>) = []"
  by (simp add: trim_samples str_not_Nil create_def addTodo_def mountEffect_def sampleTodos_def
      initialState_def filteredTodos_def matchesFilter_def matchesSearch_def
      toLowerCaseLatinGreek_latin1 sample_texts_latin1 milk_no_match)

text \<open>
  C3, amended: a create with a text that is not blank puts in front of the task sequence
  a new task with the trimmed text, the given category and priority and
  \<open>completed = false\<close>; the tasks that were there follow in their order. It empties the
  draft text and closes the add panel, and changes nothing else. Under the filter \<open>all\<close>
  the new task is the first of the visible sequence when the lower-cased search query
  occurs in its lower-cased text, and otherwise the visible sequence is the one before.
  The query occurs when it is empty, and, for a text and a query of code units up to
  U+00FF, exactly when the text contains the query up to case. This holds for every
  \<open>toLowerCase\<close>; the last two statements use that it gives the empty string for the
  empty string and works unit by unit on code units up to U+00FF.
\<close>

theorem create_prepends:
  assumes "trim txt \<noteq> []"
  shows "let newTodo = \<lparr> id_field = toString now, text_field = trim txt, completed = False,
                         category = c, priority = p, createdAt = created \<rparr>;
             s' = create txt c p now created s
         in todos s' = newTodo # todos s
            \<and> s' = s\<lparr> todos := newTodo # todos s, inputText := [], selectedCategory := c,
                      selectedPriority := p, showAddForm := False \<rparr>
            \<and> inputText s' = [] \<and> showAddForm s' = False
            \<and> (includes_str (toLowerCase (trim txt)) (toLowerCase (searchQuery s)) \<longrightarrow>
                 filteredTodos toLowerCase (s'\<lparr> filter_field := All \<rparr>)
                   = newTodo # filteredTodos toLowerCase (s\<lparr> filter_field := All \<rparr>))
            \<and> (\<not> includes_str (toLowerCase (trim txt)) (toLowerCase (searchQuery s)) \<longrightarrow>
                 filteredTodos toLowerCase (s'\<lparr> filter_field := All \<rparr>)
                   = filteredTodos toLowerCase (s\<lparr> filter_field := All \<rparr>))
            \<and> (toLowerCase [] = [] \<and> searchQuery s = [] \<longrightarrow>
                 filteredTodos toLowerCase (s'\<lparr> filter_field := All \<rparr>) = newTodo # todos s)
            \<and> ((\<forall>u. latin1 u \<longrightarrow> toLowerCase u = map lowerLatin1 u)
                 \<and> latin1 (trim txt) \<and> latin1 (searchQuery s)
                 \<and> containsIgnoringCase (trim txt) (searchQuery s) \<longrightarrow>
                 filteredTodos toLowerCase (s'\<lparr> filter_field := All \<rparr>)
                   = newTodo # filteredTodos toLowerCase (s\<lparr> filter_field := All \<rparr>))
            \<and> ((\<forall>u. latin1 u \<longrightarrow> toLowerCase u = map lowerLatin1 u)
                 \<and> latin1 (trim txt) \<and> latin1 (searchQuery s)
                 \<and> \<not> containsIgnoringCase (trim txt) (searchQuery s) \<longrightarrow>
                 filteredTodos toLowerCase (s'\<lparr> filter_field := All \<rparr>)
                   = filteredTodos toLowerCase (s\<lparr> filter_field := All \<rparr>))"
proof -
  let ?new = "\<lparr> id_field = toString now, text_field = trim txt, completed = False,
                 category = c, priority = p, createdAt = created \<rparr>"
  let ?s' = "create txt c p now created s"
  let ?hit = "includes_str (toLowerCase (trim txt)) (toLowerCase (searchQuery s))"
  have eq: "?s' = s\<lparr> todos := ?new # todos s, inputText := [], selectedCategory := c,
                      selectedPriority := p, showAddForm := False \<rparr>"
    using assms by (simp add: create_def addTodo_def)
  have q: "searchQuery ?s' = searchQuery s" and t: "todos ?s' = ?new # todos s"
    by (simp_all add: eq)
  have vis: "filteredTodos toLowerCase (?s'\<lparr> filter_field := All \<rparr>) =
      (if ?hit then ?new # filteredTodos toLowerCase (s\<lparr> filter_field := All \<rparr>)
       else filteredTodos toLowerCase (s\<lparr> filter_field := All \<rparr>))"
    by (simp add: filteredTodos_All q t)
  have empty: "filteredTodos toLowerCase (?s'\<lparr> filter_field := All \<rparr>) = ?new # todos s"
    if "toLowerCase [] = []" "searchQuery s = []"
    using that by (simp add: filteredTodos_All q t includes_str_Nil)
  have hit: "?hit \<longleftrightarrow> containsIgnoringCase (trim txt) (searchQuery s)"
    if "\<forall>u. latin1 u \<longrightarrow> toLowerCase u = map lowerLatin1 u" "latin1 (trim txt)"
      "latin1 (searchQuery s)"
    using that by (simp add: includes_map_lowerLatin1)
  from vis hit have upto: "filteredTodos toLowerCase (?s'\<lparr> filter_field := All \<rparr>)
                   = ?new # filteredTodos toLowerCase (s\<lparr> filter_field := All \<rparr>)"
    if "\<forall>u. latin1 u \<longrightarrow> toLowerCase u = map lowerLatin1 u" "latin1 (trim txt)"
      "latin1 (searchQuery s)" "containsIgnoringCase (trim txt) (searchQuery s)"
    using that by simp
  from vis hit have without: "filteredTodos toLowerCase (?s'\<lparr> filter_field := All \<rparr>)
                   = filteredTodos toLowerCase (s\<lparr> filter_field := All \<rparr>)"
    if "\<forall>u. latin1 u \<longrightarrow> toLowerCase u = map lowerLatin1 u" "latin1 (trim txt)"
      "latin1 (searchQuery s)" "\<not> containsIgnoringCase (trim txt) (searchQuery s)"
    using that by simp
  show ?thesis
    unfolding Let_def using eq t vis empty upto without by simp
qed

theorem create_prepends_witness:
  "trim (str ''  Complete project presentation '') \<noteq> [] \<and>
   filteredTodos toLowerCaseLatinGreek
     ((create (str ''  Complete project presentation '') Work High 1700000000000 1700000000000
         initialState)\<lparr> filter_field := All \<rparr>)
     = [\<lparr> id_field = str ''1700000000000'', text_field = str ''Complete project presentation'',
          completed = False, category = Work, priority = High, createdAt = 1700000000000 \<rparr>] \<and>
   trim (str ''Call the bank'') \<noteq> [] \<and>
   \<not> includes_str (toLowerCaseLatinGreek (trim (str ''Call the bank'')))
        (toLowerCaseLatinGreek (searchQuery (mountEffect 0 0 0 initialState\<lparr> searchQuery := str ''milk'' \<rparr>))) \<and>
   filteredTodos toLowerCaseLatinGreek
     ((create (str ''Call the bank'') Work High 1700000000000 1700000000000
         (mountEffect 0 0 0 initialState\<lparr> searchQuery := str ''milk'' \<rparr>))
      \<lparr> filter_field := All \<rparr>)
     = filteredTodos toLowerCaseLatinGreek
         (mountEffect 0 0 0 initialState\<lparr> searchQuery := str ''milk'', filter_field := All \<rparr>) \<and>
   \<not> containsIgnoringCase (trim (str ''Call the bank''))
        (searchQuery (mountEffect 0 0 0 initialState\<lparr> searchQuery := str ''milk'' \<rparr>)) \<and>
   containsIgnoringCase (trim (str ''Buy groceries for the week''))
     (searchQuery (mountEffect 0 0 0 initialState\<lparr> searchQuery := str ''GROCERIES'' \<rparr>)) \<and>
   hd (filteredTodos toLowerCaseLatinGreek
     ((create (str ''Buy groceries for the week'') Shopping Low 1700000000000 1700000000000
         (mountEffect 0 0 0 initialState\<lparr> searchQuery := str ''GROCERIES'' \<rparr>))
      \<lparr> filter_field := All \<rparr>))
     = \<lparr> id_field = toString 1700000000000, text_field = trim (str ''Buy groceries for the week''),
          completed = False, category = Shopping, priority = Low, createdAt = 1700000000000 \<rparr>"
proof -
  let ?t1 = "str ''  Complete project presentation ''"
  have ne: "trim ?t1 \<noteq> []"
    by (simp add: trim_samples str_not_Nil)
  have q: "searchQuery initialState = []" and e: "todos initialState = []"
    by (simp_all add: initialState_def)
  from create_prepends [OF ne, of 1700000000000 Work High 1700000000000 initialState
      toLowerCaseLatinGreek]
  have "toLowerCaseLatinGreek [] = [] \<and> searchQuery initialState = [] \<longrightarrow>
     filteredTodos toLowerCaseLatinGreek
       ((create ?t1 Work High 1700000000000 1700000000000 initialState)\<lparr> filter_field := All \<rparr>)
     = \<lparr> id_field = toString 1700000000000, text_field = trim ?t1,
          completed = False, category = Work, priority = High, createdAt = 1700000000000 \<rparr>
       # todos initialState"
    unfolding Let_def by blast
  then have shown: "filteredTodos toLowerCaseLatinGreek
       ((create ?t1 Work High 1700000000000 1700000000000 initialState)\<lparr> filter_field := All \<rparr>)
     = [\<lparr> id_field = str ''1700000000000'', text_field = str ''Complete project presentation'',
          completed = False, category = Work, priority = High, createdAt = 1700000000000 \<rparr>]"
    by (simp only: q e trim_samples toString_1700000000000 toLowerCaseLatinGreek_Nil simp_thms)
  let ?s = "mountEffect 0 0 0 initialState\<lparr> searchQuery := str ''milk'' \<rparr>"
  let ?t2 = "str ''Call the bank''"
  have ne2: "trim ?t2 \<noteq> []"
    by (simp add: trim_samples str_not_Nil)
  have nc: "\<not> includes_str (toLowerCaseLatinGreek (trim ?t2)) (toLowerCaseLatinGreek (searchQuery ?s))"
    by (simp add: trim_samples toLowerCaseLatinGreek_latin1 sample_texts_latin1 milk_no_match)
  have lc: "\<forall>u. latin1 u \<longrightarrow> toLowerCaseLatinGreek u = map lowerLatin1 u"
    by (simp add: toLowerCaseLatinGreek_latin1)
  have l2: "latin1 (trim ?t2)" "latin1 (searchQuery ?s)"
    by (simp_all add: trim_samples sample_texts_latin1)
  have nu: "\<not> containsIgnoringCase (trim ?t2) (searchQuery ?s)"
    using milk_no_match(1) by (simp add: trim_samples includes_map_lowerLatin1)
  from create_prepends [OF ne2, of 1700000000000 Work High 1700000000000 ?s toLowerCaseLatinGreek]
    lc l2 nu
  have hidden: "filteredTodos toLowerCaseLatinGreek
       ((create ?t2 Work High 1700000000000 1700000000000 ?s)\<lparr> filter_field := All \<rparr>)
     = filteredTodos toLowerCaseLatinGreek (?s\<lparr> filter_field := All \<rparr>)"
    unfolding Let_def by blast
  let ?g = "mountEffect 0 0 0 initialState\<lparr> searchQuery := str ''GROCERIES'' \<rparr>"
  let ?t3 = "str ''Buy groceries for the week''"
  have tr3: "trim ?t3 = ?t3"
    by (simp add: trim_def isWhiteSpace_def str_def)
  have ne3: "trim ?t3 \<noteq> []"
    by (simp add: tr3) (simp add: str_def)
  have h3: "\<forall>u. latin1 u \<longrightarrow> toLowerCaseLatinGreek u = map lowerLatin1 u"
    "latin1 (trim ?t3)" "latin1 (searchQuery ?g)"
    by (simp_all add: toLowerCaseLatinGreek_latin1 tr3 sample_texts_latin1)
  have c3: "containsIgnoringCase (trim ?t3) (searchQuery ?g)"
    using groceries_match by (simp add: tr3 includes_map_lowerLatin1)
  from create_prepends [OF ne3, of 1700000000000 Shopping Low 1700000000000 ?g toLowerCaseLatinGreek]
    h3 c3
  have "filteredTodos toLowerCaseLatinGreek
       ((create ?t3 Shopping Low 1700000000000 1700000000000 ?g)\<lparr> filter_field := All \<rparr>)
     = \<lparr> id_field = toString 1700000000000, text_field = trim ?t3,
          completed = False, category = Shopping, priority = Low, createdAt = 1700000000000 \<rparr>
       # filteredTodos toLowerCaseLatinGreek (?g\<lparr> filter_field := All \<rparr>)"
    unfolding Let_def by blast
  then have first: "hd (filteredTodos toLowerCaseLatinGreek
       ((create ?t3 Shopping Low 1700000000000 1700000000000 ?g)\<lparr> filter_field := All \<rparr>))
     = \<lparr> id_field = toString 1700000000000, text_field = trim ?t3,
          completed = False, category = Shopping, priority = Low, createdAt = 1700000000000 \<rparr>"
    by simp
  from ne shown ne2 nc hidden nu c3 first show ?thesis by simp
qed

section \<open>Toggling a task\<close>

text \<open>
  C8: \<^verbatim>\<open>toggleTodo\<close> keeps the list as long as it was and, position by position, negates
  \<open>completed\<close> in the tasks whose id is the given one and leaves the other tasks, and
  every other part of the state, as they were. Toggling the same id twice gives the
  state back. For an id that no task has, the state is unchanged.
\<close>

theorem toggleTodo_flips:
  "length (todos (toggleTodo i s)) = length (todos s)
   \<and> (\<forall>k < length (todos s).
        todos (toggleTodo i s) ! k =
          (if id_field (todos s ! k) = i
           then (todos s ! k)\<lparr> completed := \<not> completed (todos s ! k) \<rparr>
           else todos s ! k))
   \<and> toggleTodo i s = s\<lparr> todos := todos (toggleTodo i s) \<rparr>
   \<and> toggleTodo i (toggleTodo i s) = s
   \<and> (i \<notin> set (ids s) \<longrightarrow> toggleTodo i s = s)"
proof -
  let ?flip = "\<lambda>todo. if id_field todo = i then todo\<lparr> completed := \<not> completed todo \<rparr> else todo"
  have twice: "map (?flip \<circ> ?flip) xs = xs" for xs :: "Todo list"
    by (induction xs) auto
  have absent: "i \<notin> set (map id_field xs) \<Longrightarrow> map ?flip xs = xs" for xs :: "Todo list"
    by (induction xs) auto
  show ?thesis
    using twice [of "todos s"] absent [of "todos s"]
    by (simp add: toggleTodo_def ids_def)
qed

theorem toggleTodo_flips_witness:
  "toggleTodo (str ''3'') (toggleTodo (str ''3'') (mountEffect 0 0 0 initialState))
     = mountEffect 0 0 0 initialState
   \<and> str ''9'' \<notin> set (ids (mountEffect 0 0 0 initialState))
   \<and> toggleTodo (str ''9'') (mountEffect 0 0 0 initialState) = mountEffect 0 0 0 initialState
   \<and> (2::nat) < length (todos (mountEffect 0 0 0 initialState))
   \<and> completed (todos (toggleTodo (str ''3'') (mountEffect 0 0 0 initialState)) ! 2) = False"
proof -
  let ?s = "mountEffect 0 0 0 initialState"
  have absent: "str ''9'' \<notin> set (ids ?s)"
    by (simp add: ids_def mountEffect_def sampleTodos_def str_def)
  have len: "(2::nat) < length (todos ?s)"
    by (simp add: mountEffect_def sampleTodos_def)
  have third: "id_field (todos ?s ! 2) = str ''3''" "completed (todos ?s ! 2) = True"
    by (simp_all add: mountEffect_def sampleTodos_def)
  from toggleTodo_flips [of "str ''3''" ?s] len third
  have "completed (todos (toggleTodo (str ''3'') ?s) ! 2) = False" by simp
  with toggleTodo_flips [of "str ''3''" ?s] toggleTodo_flips [of "str ''9''" ?s] absent len
  show ?thesis by blast
qed

section \<open>Editing a task\<close>

text \<open>
  C4: \<^verbatim>\<open>saveEdit\<close> keeps the list as long as it was and, position by position, puts the
  trimmed edit buffer in place of the text of a task exactly when the trimmed buffer is
  not empty and the id of the task is the stored editing-id; every other task, and every
  other field, is as before. In every case the editing-id and the edit buffer are cleared
  and nothing else of the state changes. With a buffer that trims to the empty string the
  task list is unchanged; so it is after \<^verbatim>\<open>startEdit\<close>, a buffer of two spaces and
  \<^verbatim>\<open>saveEdit\<close>.
\<close>

theorem saveEdit_commits:
  "length (todos (saveEdit s)) = length (todos s)
   \<and> (\<forall>k < length (todos s).
        todos (saveEdit s) ! k =
          (if trim (editingText s) \<noteq> [] \<and> editingId s = Some (id_field (todos s ! k))
           then (todos s ! k)\<lparr> text_field := trim (editingText s) \<rparr>
           else todos s ! k))
   \<and> editingId (saveEdit s) = None
   \<and> editingText (saveEdit s) = []
   \<and> saveEdit s = s\<lparr> todos := todos (saveEdit s), editingId := None, editingText := [] \<rparr>
   \<and> (trim (editingText s) = [] \<longrightarrow> todos (saveEdit s) = todos s)
   \<and> todos (saveEdit ((startEdit todo s)\<lparr> editingText := str ''  '' \<rparr>)) = todos s
   \<and> editingId (saveEdit ((startEdit todo s)\<lparr> editingText := str ''  '' \<rparr>)) = None"
proof -
  have blank: "trim (str ''  '') = []"
    by (simp add: trim_samples)
  have nth: "\<forall>k < length (todos s).
        todos (saveEdit s) ! k =
          (if trim (editingText s) \<noteq> [] \<and> editingId s = Some (id_field (todos s ! k))
           then (todos s ! k)\<lparr> text_field := trim (editingText s) \<rparr>
           else todos s ! k)"
    by (auto simp: saveEdit_def)
  have rest: "length (todos (saveEdit s)) = length (todos s)"
    "editingId (saveEdit s) = None" "editingText (saveEdit s) = []"
    "saveEdit s = s\<lparr> todos := todos (saveEdit s), editingId := None, editingText := [] \<rparr>"
    "trim (editingText s) = [] \<longrightarrow> todos (saveEdit s) = todos s"
    by (simp_all add: saveEdit_def)
  have scen: "todos (saveEdit ((startEdit todo s)\<lparr> editingText := str ''  '' \<rparr>)) = todos s"
    "editingId (saveEdit ((startEdit todo s)\<lparr> editingText := str ''  '' \<rparr>)) = None"
    by (simp_all add: saveEdit_def startEdit_def blank)
  from nth rest scen show ?thesis by blast
qed

theorem saveEdit_commits_witness:
  "(1::nat) < length (todos (mountEffect 0 0 0 initialState))
   \<and> trim (editingText ((startEdit (sampleTodos 0 0 0 ! 1) (mountEffect 0 0 0 initialState))
                          \<lparr> editingText := str '' Buy milk '' \<rparr>)) \<noteq> []
   \<and> text_field (todos (saveEdit ((startEdit (sampleTodos 0 0 0 ! 1) (mountEffect 0 0 0 initialState))
                          \<lparr> editingText := str '' Buy milk '' \<rparr>)) ! 1) = str ''Buy milk''
   \<and> trim (editingText ((startEdit (sampleTodos 0 0 0 ! 1) (mountEffect 0 0 0 initialState))
                          \<lparr> editingText := str ''  '' \<rparr>)) = []
   \<and> todos (saveEdit ((startEdit (sampleTodos 0 0 0 ! 1) (mountEffect 0 0 0 initialState))
                          \<lparr> editingText := str ''  '' \<rparr>)) = sampleTodos 0 0 0"
proof -
  let ?s = "mountEffect 0 0 0 initialState"
  let ?a = "(startEdit (sampleTodos 0 0 0 ! 1) ?s)\<lparr> editingText := str '' Buy milk '' \<rparr>"
  let ?b = "(startEdit (sampleTodos 0 0 0 ! 1) ?s)\<lparr> editingText := str ''  '' \<rparr>"
  have len: "(1::nat) < length (todos ?s)" "(1::nat) < length (todos ?a)"
    by (simp_all add: mountEffect_def sampleTodos_def startEdit_def)
  have tr: "trim (editingText ?a) = str ''Buy milk''" "trim (editingText ?b) = []"
    by (simp_all add: trim_samples)
  have ne: "str ''Buy milk'' \<noteq> []"
    by (simp add: str_def)
  have ed: "editingId ?a = Some (id_field (todos ?a ! 1))"
    by (simp add: startEdit_def mountEffect_def sampleTodos_def)
  have tb: "todos ?b = sampleTodos 0 0 0"
    by (simp add: startEdit_def mountEffect_def)
  from saveEdit_commits [of ?a "sampleTodos 0 0 0 ! 1"] len tr ed ne
  have one: "text_field (todos (saveEdit ?a) ! 1) = str ''Buy milk''" by simp
  from saveEdit_commits [of ?b "sampleTodos 0 0 0 ! 1"] tr tb
  have two: "todos (saveEdit ?b) = sampleTodos 0 0 0" by simp
  from len tr ne one two show ?thesis by simp
qed

section \<open>Deleting a task\<close>



section \<open>The visible sequence\<close>

text \<open>
  C7: for every store and search query, the visible sequences under the filters
  \<open>active\<close> and \<open>completed\<close> have no task in common, and together they hold exactly the
  tasks of the visible sequence under \<open>all\<close>.
\<close>

theorem active_completed_partition:
  "set (filteredTodos toLowerCase (s\<lparr> filter_field := Active \<rparr>))
     \<inter> set (filteredTodos toLowerCase (s\<lparr> filter_field := Completed \<rparr>)) = {}
   \<and> set (filteredTodos toLowerCase (s\<lparr> filter_field := Active \<rparr>))
     \<union> set (filteredTodos toLowerCase (s\<lparr> filter_field := Completed \<rparr>))
     = set (filteredTodos toLowerCase (s\<lparr> filter_field := All \<rparr>))"
  by (auto simp: filteredTodos_def matchesFilter_def)

theorem active_completed_partition_witness:
  "set (filteredTodos toLowerCaseLatinGreek (mountEffect 0 0 0 initialState\<lparr> filter_field := Active \<rparr>))
     \<inter> set (filteredTodos toLowerCaseLatinGreek
           (mountEffect 0 0 0 initialState\<lparr> filter_field := Completed \<rparr>)) = {}
   \<and> set (filteredTodos toLowerCaseLatinGreek (mountEffect 0 0 0 initialState\<lparr> filter_field := Active \<rparr>))
     \<union> set (filteredTodos toLowerCaseLatinGreek
           (mountEffect 0 0 0 initialState\<lparr> filter_field := Completed \<rparr>))
     = set (sampleTodos 0 0 0)"
proof -
  have "filteredTodos toLowerCaseLatinGreek (mountEffect 0 0 0 initialState\<lparr> filter_field := All \<rparr>)
      = sampleTodos 0 0 0"
    by (simp add: filteredTodos_def matchesFilter_def matchesSearch_def toLowerCaseLatinGreek_Nil
        includes_str_Nil mountEffect_def initialState_def)
  with active_completed_partition [of toLowerCaseLatinGreek "mountEffect 0 0 0 initialState"]
  show ?thesis by simp
qed

text \<open>
  C6, as the specification states it: a task is kept exactly when it passes the status
  filter and its text contains the search query as a case-insensitive substring. The
  code looks for the lower-cased query in the lower-cased text, and lower-casing a whole
  string is more than lower-casing its letters: the capital sigma at the end of the word
  \<open>U+039F U+0394 U+039F U+03A3\<close> becomes the final sigma U+03C2, and the capital sigma
  alone the sigma U+03C3. So with the query \<open>U+03A3\<close> the task with that text, which
  contains the query as it stands, is not kept.
\<close>

theorem filteredTodos_counterexample:
  "includes_str [0x39F, 0x394, 0x39F, 0x3A3] [0x3A3]
   \<and> containsIgnoringCase [0x39F, 0x394, 0x39F, 0x3A3] [0x3A3]
   \<and> statusPasses All \<lparr> id_field = str ''1'', text_field = [0x39F, 0x394, 0x39F, 0x3A3],
        completed = False, category = Personal, priority = Medium, createdAt = 0 \<rparr>
   \<and> filteredTodos toLowerCaseLatinGreek
        (initialState\<lparr> todos := [\<lparr> id_field = str ''1'', text_field = [0x39F, 0x394, 0x39F, 0x3A3],
                                      completed = False, category = Personal, priority = Medium,
                                      createdAt = 0 \<rparr>],
                        searchQuery := [0x3A3] \<rparr>) = []"
proof -
  have v: "includes_str [0x39F, 0x394, 0x39F, 0x3A3] [0x3A3 :: code_unit]"
    by simp
  from v have c: "containsIgnoringCase [0x39F, 0x394, 0x39F, 0x3A3] [0x3A3]"
    by (rule containsIgnoringCase_verbatim)
  have h: "filteredTodos toLowerCaseLatinGreek
        (initialState\<lparr> todos := [\<lparr> id_field = str ''1'', text_field = [0x39F, 0x394, 0x39F, 0x3A3],
                                      completed = False, category = Personal, priority = Medium,
                                      createdAt = 0 \<rparr>],
                        searchQuery := [0x3A3] \<rparr>) = []"
    by (simp add: filteredTodos_def matchesSearch_def greek_lower initialState_def)
  from v c h show ?thesis by simp
qed

text \<open>
  C6, amended. For every \<open>toLowerCase\<close>, the visible sequence is the task sequence
  filtered, in its order, by the status filter and by whether the lower-cased search
  query occurs in the lower-cased text, both required; it is a subsequence of the task
  sequence. When \<open>toLowerCase\<close> gives the empty string for the empty string, the empty
  query leaves the status filter alone to decide. When \<open>toLowerCase\<close> works unit by unit
  on code units up to U+00FF, and the query and the texts hold only such units, the
  second test is the case-insensitive substring match of the specification; so with the
  query \<open>GROCERIES\<close>, a task of the store with the text \<open>Buy groceries for the week\<close> that
  passes the status filter is visible.
\<close>

theorem filteredTodos_spec:
  "filteredTodos toLowerCase s =
     filter (\<lambda>todo. statusPasses (filter_field s) todo
                   \<and> (\<exists>ps ss. toLowerCase (text_field todo)
                                = ps @ toLowerCase (searchQuery s) @ ss)) (todos s)
   \<and> subseq (filteredTodos toLowerCase s) (todos s)
   \<and> (toLowerCase [] = [] \<and> searchQuery s = [] \<longrightarrow>
        filteredTodos toLowerCase s = filter (statusPasses (filter_field s)) (todos s))
   \<and> ((\<forall>u. latin1 u \<longrightarrow> toLowerCase u = map lowerLatin1 u)
        \<and> latin1 (searchQuery s) \<and> (\<forall>todo \<in> set (todos s). latin1 (text_field todo)) \<longrightarrow>
        filteredTodos toLowerCase s =
          filter (\<lambda>todo. statusPasses (filter_field s) todo
                        \<and> containsIgnoringCase (text_field todo) (searchQuery s)) (todos s))
   \<and> ((\<forall>u. latin1 u \<longrightarrow> toLowerCase u = map lowerLatin1 u)
        \<and> searchQuery s = str ''GROCERIES'' \<and> todo \<in> set (todos s)
        \<and> text_field todo = str ''Buy groceries for the week''
        \<and> statusPasses (filter_field s) todo
       \<longrightarrow> todo \<in> set (filteredTodos toLowerCase s))"
proof -
  have eq: "filteredTodos toLowerCase s =
     filter (\<lambda>todo. statusPasses (filter_field s) todo
                   \<and> (\<exists>ps ss. toLowerCase (text_field todo)
                                = ps @ toLowerCase (searchQuery s) @ ss)) (todos s)"
    by (simp add: filteredTodos_def matchesFilter_iff matchesSearch_def includes_str_iff)
  have order: "subseq (filteredTodos toLowerCase s) (todos s)"
    by (simp add: filteredTodos_def)
  have empty: "toLowerCase [] = [] \<and> searchQuery s = [] \<longrightarrow>
        filteredTodos toLowerCase s = filter (statusPasses (filter_field s)) (todos s)"
    by (simp add: filteredTodos_def matchesFilter_iff matchesSearch_def includes_str_Nil)
  have upto: "filteredTodos toLowerCase s =
          filter (\<lambda>todo. statusPasses (filter_field s) todo
                        \<and> containsIgnoringCase (text_field todo) (searchQuery s)) (todos s)"
    if h: "\<forall>u. latin1 u \<longrightarrow> toLowerCase u = map lowerLatin1 u" "latin1 (searchQuery s)"
      "\<forall>todo \<in> set (todos s). latin1 (text_field todo)"
  proof -
    have "matchesSearch toLowerCase (searchQuery s) todo
          \<longleftrightarrow> containsIgnoringCase (text_field todo) (searchQuery s)"
      if "todo \<in> set (todos s)" for todo
      using h that by (simp add: matchesSearch_def includes_map_lowerLatin1)
    then show ?thesis
      unfolding filteredTodos_def by (intro filter_cong) (simp_all add: matchesFilter_iff)
  qed
  have ex: "todo \<in> set (filteredTodos toLowerCase s)"
    if "\<forall>u. latin1 u \<longrightarrow> toLowerCase u = map lowerLatin1 u"
      "searchQuery s = str ''GROCERIES''" "todo \<in> set (todos s)"
      "text_field todo = str ''Buy groceries for the week''" "statusPasses (filter_field s) todo"
    using that
    by (simp add: filteredTodos_def matchesFilter_iff matchesSearch_def sample_texts_latin1
        groceries_match)
  from eq order empty upto ex show ?thesis by blast
qed

theorem filteredTodos_spec_witness:
  "sampleTodos 0 0 0 ! 1 \<in> set (filteredTodos toLowerCaseLatinGreek
       (mountEffect 0 0 0 initialState\<lparr> searchQuery := str ''GROCERIES'' \<rparr>))
   \<and> filteredTodos toLowerCaseLatinGreek (mountEffect 0 0 0 initialState) = sampleTodos 0 0 0
   \<and> filteredTodos toLowerCaseLatinGreek
       (mountEffect 0 0 0 initialState\<lparr> searchQuery := str ''GROCERIES'' \<rparr>)
     = filter (\<lambda>todo. containsIgnoringCase (text_field todo) (str ''GROCERIES''))
         (sampleTodos 0 0 0)"
proof -
  let ?s = "mountEffect 0 0 0 initialState\<lparr> searchQuery := str ''GROCERIES'' \<rparr>"
  let ?t = "sampleTodos 0 0 0 ! 1"
  have lc: "\<forall>u. latin1 u \<longrightarrow> toLowerCaseLatinGreek u = map lowerLatin1 u"
    by (simp add: toLowerCaseLatinGreek_latin1)
  have h: "searchQuery ?s = str ''GROCERIES''" "?t \<in> set (todos ?s)"
    "text_field ?t = str ''Buy groceries for the week''" "statusPasses (filter_field ?s) ?t"
    by (simp_all add: mountEffect_def sampleTodos_def initialState_def)
  from filteredTodos_spec [of toLowerCaseLatinGreek ?s ?t] lc h
  have one: "?t \<in> set (filteredTodos toLowerCaseLatinGreek ?s)" by blast
  have q: "toLowerCaseLatinGreek [] = []" "searchQuery (mountEffect 0 0 0 initialState) = []"
    "filter (statusPasses (filter_field (mountEffect 0 0 0 initialState)))
       (todos (mountEffect 0 0 0 initialState)) = sampleTodos 0 0 0"
    by (simp_all add: toLowerCaseLatinGreek_Nil mountEffect_def initialState_def)
  from filteredTodos_spec [of toLowerCaseLatinGreek "mountEffect 0 0 0 initialState" ?t]
  have "toLowerCaseLatinGreek [] = [] \<and> searchQuery (mountEffect 0 0 0 initialState) = [] \<longrightarrow>
      filteredTodos toLowerCaseLatinGreek (mountEffect 0 0 0 initialState) =
      filter (statusPasses (filter_field (mountEffect 0 0 0 initialState)))
        (todos (mountEffect 0 0 0 initialState))"
    by blast
  with q have two: "filteredTodos toLowerCaseLatinGreek (mountEffect 0 0 0 initialState)
      = sampleTodos 0 0 0" by simp
  have l: "latin1 (searchQuery ?s)" "\<forall>todo \<in> set (todos ?s). latin1 (text_field todo)"
    by (simp_all add: mountEffect_def sampleTodos_def initialState_def sample_texts_latin1)
  from filteredTodos_spec [of toLowerCaseLatinGreek ?s ?t] lc l
  have "filteredTodos toLowerCaseLatinGreek ?s =
          filter (\<lambda>todo. statusPasses (filter_field ?s) todo
                        \<and> containsIgnoringCase (text_field todo) (searchQuery ?s)) (todos ?s)"
    by blast
  then have three: "filteredTodos toLowerCaseLatinGreek ?s
     = filter (\<lambda>todo. containsIgnoringCase (text_field todo) (str ''GROCERIES''))
         (sampleTodos 0 0 0)"
    by (simp add: mountEffect_def initialState_def)
  from one two three show ?thesis by blast
qed

section \<open>Progress\<close>

text \<open>
  C9, as the specification states it: with three tasks of which one is completed the
  completion ratio is 1/3. The ratio is a quotient of numbers, the binary64 value nearest
  to 1/3, which is not 1/3; and the width of the bar is not 100/3.
\<close>

theorem progressWidth_counterexample:
  "totalCount (mountEffect 0 0 0 initialState) = 3
   \<and> completedCount (mountEffect 0 0 0 initialState) = 1
   \<and> round64 (of_nat (completedCount (mountEffect 0 0 0 initialState))
               / of_nat (totalCount (mountEffect 0 0 0 initialState))) \<noteq> 1 / 3
   \<and> progressWidth (mountEffect 0 0 0 initialState) \<noteq> 100 / 3"
proof -
  have c: "totalCount (mountEffect 0 0 0 initialState) = 3"
    "completedCount (mountEffect 0 0 0 initialState) = 1"
    by (simp_all add: totalCount_def completedCount_def mountEffect_def sampleTodos_def)
  have r: "round64 (1 / 3) \<noteq> 1 / 3"
    by (simp add: round64_third)
  have w: "progressWidth (mountEffect 0 0 0 initialState) \<noteq> 100 / 3"
    by (simp add: progressWidth_def c round64_third round64_width_third)
  from c r w show ?thesis by simp
qed

text \<open>
  C9, amended. The number of tasks is the length of the list and the number of completed
  tasks the number of its positions with a completed task. For the empty list the width
  of the progress bar is 0, and no quotient is formed. Otherwise the completion ratio is
  the quotient of the two counts as numbers, the binary64 value nearest to
  completed / total, and the width is the product of the ratio and 100 as numbers. The
  ratio differs from completed / total by at most that value times \<open>2 ^ - 53\<close> (for a
  list shorter than \<open>2 ^ 32\<close>); it is 0 when no task is completed and 1 when all are,
  with the widths 0 and 100. With three tasks of which one is completed the ratio is
  6004799503160661 / 2 ^ 54 and the width 2345624805922133 / 2 ^ 46, which is
  33.33333333333333 to sixteen digits.
\<close>

theorem progressWidth_ratio:
  "totalCount s = length (todos s)
   \<and> completedCount s = card {k. k < length (todos s) \<and> completed (todos s ! k)}
   \<and> (todos s = [] \<longrightarrow> progressWidth s = 0)
   \<and> (0 < totalCount s \<longrightarrow>
        progressWidth s
          = round64 (round64 (of_nat (completedCount s) / of_nat (totalCount s)) * 100))
   \<and> (0 < completedCount s \<and> totalCount s < 2 ^ 32 \<longrightarrow>
        \<bar>round64 (of_nat (completedCount s) / of_nat (totalCount s))
           - of_nat (completedCount s) / of_nat (totalCount s)\<bar>
        \<le> (of_nat (completedCount s) / of_nat (totalCount s)) / 2 ^ 53)
   \<and> (0 < totalCount s \<and> completedCount s = 0 \<longrightarrow>
        round64 (of_nat (completedCount s) / of_nat (totalCount s)) = 0 \<and> progressWidth s = 0)
   \<and> (0 < totalCount s \<and> completedCount s = totalCount s \<longrightarrow>
        round64 (of_nat (completedCount s) / of_nat (totalCount s)) = 1 \<and> progressWidth s = 100)
   \<and> (totalCount s = 3 \<and> completedCount s = 1 \<longrightarrow>
        round64 (of_nat (completedCount s) / of_nat (totalCount s))
          = 6004799503160661 / 2 ^ 54
        \<and> progressWidth s = 2345624805922133 / 2 ^ 46)"
proof -
  have counts: "totalCount s = length (todos s)"
    "completedCount s = card {k. k < length (todos s) \<and> completed (todos s ! k)}"
    by (simp_all add: totalCount_def completedCount_def length_filter_conv_card)
  have empty: "todos s = [] \<longrightarrow> progressWidth s = 0"
    by (simp add: progressWidth_def totalCount_def)
  have width: "0 < totalCount s \<longrightarrow>
        progressWidth s
          = round64 (round64 (of_nat (completedCount s) / of_nat (totalCount s)) * 100)"
    by (simp add: progressWidth_def)
  have le: "completedCount s \<le> totalCount s"
    by (simp add: completedCount_def totalCount_def)
  have near: "0 < completedCount s \<and> totalCount s < 2 ^ 32 \<longrightarrow>
        \<bar>round64 (of_nat (completedCount s) / of_nat (totalCount s))
           - of_nat (completedCount s) / of_nat (totalCount s)\<bar>
        \<le> (of_nat (completedCount s) / of_nat (totalCount s)) / 2 ^ 53"
  proof
    assume h: "0 < completedCount s \<and> totalCount s < 2 ^ 32"
    with le have "0 < totalCount s" by simp
    with h show "\<bar>round64 (of_nat (completedCount s) / of_nat (totalCount s))
           - of_nat (completedCount s) / of_nat (totalCount s)\<bar>
        \<le> (of_nat (completedCount s) / of_nat (totalCount s)) / 2 ^ 53"
      by (intro ratio_error) simp_all
  qed
  have none: "0 < totalCount s \<and> completedCount s = 0 \<longrightarrow>
        round64 (of_nat (completedCount s) / of_nat (totalCount s)) = 0 \<and> progressWidth s = 0"
    by (simp add: progressWidth_def round64_zero)
  have all: "0 < totalCount s \<and> completedCount s = totalCount s \<longrightarrow>
        round64 (of_nat (completedCount s) / of_nat (totalCount s)) = 1 \<and> progressWidth s = 100"
    by (simp add: progressWidth_def round64_one round64_hundred)
  have third: "totalCount s = 3 \<and> completedCount s = 1 \<longrightarrow>
        round64 (of_nat (completedCount s) / of_nat (totalCount s))
          = 6004799503160661 / 2 ^ 54
        \<and> progressWidth s = 2345624805922133 / 2 ^ 46"
    by (simp add: progressWidth_def round64_third round64_width_third)
  from counts empty width near none all third show ?thesis by blast
qed

theorem progressWidth_ratio_witness:
  "totalCount (mountEffect 0 0 0 initialState) = 3
   \<and> completedCount (mountEffect 0 0 0 initialState) = 1
   \<and> round64 (of_nat (completedCount (mountEffect 0 0 0 initialState))
               / of_nat (totalCount (mountEffect 0 0 0 initialState)))
       = 6004799503160661 / 2 ^ 54
   \<and> progressWidth (mountEffect 0 0 0 initialState) = 2345624805922133 / 2 ^ 46
   \<and> \<bar>round64 (of_nat (completedCount (mountEffect 0 0 0 initialState))
               / of_nat (totalCount (mountEffect 0 0 0 initialState)))
       - of_nat (completedCount (mountEffect 0 0 0 initialState))
               / of_nat (totalCount (mountEffect 0 0 0 initialState))\<bar>
     \<le> (of_nat (completedCount (mountEffect 0 0 0 initialState))
               / of_nat (totalCount (mountEffect 0 0 0 initialState))) / 2 ^ 53
   \<and> todos initialState = []
   \<and> progressWidth initialState = 0
   \<and> progressWidth (toggleTodo (str ''3'') (mountEffect 0 0 0 initialState)) = 0
   \<and> progressWidth (toggleTodo (str ''1'') (toggleTodo (str ''2'') (mountEffect 0 0 0 initialState)))
       = 100"
proof -
  let ?s = "mountEffect 0 0 0 initialState"
  let ?none = "toggleTodo (str ''3'') ?s"
  let ?all = "toggleTodo (str ''1'') (toggleTodo (str ''2'') ?s)"
  have c: "totalCount ?s = 3" "completedCount ?s = 1"
    by (simp_all add: totalCount_def completedCount_def mountEffect_def sampleTodos_def)
  have e: "todos initialState = []"
    by (simp add: initialState_def)
  have n: "0 < totalCount ?none" "completedCount ?none = 0"
    by (simp_all add: totalCount_def completedCount_def toggleTodo_def mountEffect_def
        sampleTodos_def str_def)
  have a: "0 < totalCount ?all" "completedCount ?all = totalCount ?all"
    by (simp_all add: totalCount_def completedCount_def toggleTodo_def mountEffect_def
        sampleTodos_def str_def)
  have small: "0 < completedCount ?s" "totalCount ?s < 2 ^ 32"
    by (simp_all add: c)
  note at_s = progressWidth_ratio [of ?s]
  from at_s c have one: "round64 (of_nat (completedCount ?s) / of_nat (totalCount ?s))
       = 6004799503160661 / 2 ^ 54" "progressWidth ?s = 2345624805922133 / 2 ^ 46"
    by blast+
  from at_s small have two: "\<bar>round64 (of_nat (completedCount ?s) / of_nat (totalCount ?s))
       - of_nat (completedCount ?s) / of_nat (totalCount ?s)\<bar>
     \<le> (of_nat (completedCount ?s) / of_nat (totalCount ?s)) / 2 ^ 53"
    by blast
  from progressWidth_ratio [of initialState] e have three: "progressWidth initialState = 0"
    by blast
  from progressWidth_ratio [of ?none] n have four: "progressWidth ?none = 0" by blast
  from progressWidth_ratio [of ?all] a have five: "progressWidth ?all = 100" by blast
  from c one two e three four five show ?thesis by blast
qed

section \<open>The store after start-up\<close>

text \<open>
  C10, as the specification states it: the store does not start empty, and the initial
  completion ratio is 1/3. The list starts as the initial value of its \<^verbatim>\<open>useState\<close> cell,
  the empty list: in the state of the first render the visible sequence is empty and the
  width of the progress bar is 0. And the ratio after the effect that stores the sample
  tasks is the binary64 value nearest to 1/3, not 1/3.
\<close>

theorem mount_sample_store_counterexample:
  "todos initialState = []
   \<and> filteredTodos toLowerCaseLatinGreek initialState = []
   \<and> progressWidth initialState = 0
   \<and> round64 (of_nat (completedCount (mountEffect 0 0 0 initialState))
               / of_nat (totalCount (mountEffect 0 0 0 initialState))) \<noteq> 1 / 3"
proof -
  have e: "todos initialState = []"
    by (simp add: initialState_def)
  have v: "filteredTodos toLowerCaseLatinGreek initialState = []"
    by (simp add: filteredTodos_def e)
  have w: "progressWidth initialState = 0"
    by (simp add: progressWidth_def totalCount_def e)
  have c: "totalCount (mountEffect 0 0 0 initialState) = 3"
    "completedCount (mountEffect 0 0 0 initialState) = 1"
    by (simp_all add: totalCount_def completedCount_def mountEffect_def sampleTodos_def)
  have r: "round64 (of_nat (completedCount (mountEffect 0 0 0 initialState))
               / of_nat (totalCount (mountEffect 0 0 0 initialState))) \<noteq> 1 / 3"
    by (simp add: c round64_third)
  from e v w r show ?thesis by simp
qed

text \<open>
  C10, amended. The list of the first render is empty. The effect that runs once after
  the first mount stores three tasks with the ids 1, 2 and 3, of which one,
  \<open>Morning workout\<close>, is completed. After it the filter is \<open>all\<close> and the query is empty,
  so the visible sequence is the three tasks (for a \<open>toLowerCase\<close> that gives the empty
  string for the empty string); the completion ratio is the binary64 value nearest to
  1/3, 6004799503160661 / 2 ^ 54, and the width of the progress bar is
  2345624805922133 / 2 ^ 46, which is 33.33333333333333 to sixteen digits.
\<close>

theorem mount_sample_store:
  "todos initialState = []
   \<and> ids (mountEffect d1 d2 d3 initialState) = [str ''1'', str ''2'', str ''3'']
   \<and> length (todos (mountEffect d1 d2 d3 initialState)) = 3
   \<and> map text_field (filter (\<lambda>todo. completed todo) (todos (mountEffect d1 d2 d3 initialState)))
       = [str ''Morning workout'']
   \<and> completedCount (mountEffect d1 d2 d3 initialState) = 1
   \<and> totalCount (mountEffect d1 d2 d3 initialState) = 3
   \<and> filter_field (mountEffect d1 d2 d3 initialState) = All
   \<and> searchQuery (mountEffect d1 d2 d3 initialState) = []
   \<and> (toLowerCase [] = [] \<longrightarrow>
        filteredTodos toLowerCase (mountEffect d1 d2 d3 initialState)
          = todos (mountEffect d1 d2 d3 initialState)
        \<and> length (filteredTodos toLowerCase (mountEffect d1 d2 d3 initialState)) = 3)
   \<and> round64 (of_nat (completedCount (mountEffect d1 d2 d3 initialState))
               / of_nat (totalCount (mountEffect d1 d2 d3 initialState)))
       = 6004799503160661 / 2 ^ 54
   \<and> progressWidth (mountEffect d1 d2 d3 initialState) = 2345624805922133 / 2 ^ 46"
proof -
  let ?s = "mountEffect d1 d2 d3 initialState"
  have first: "todos initialState = []"
    by (simp add: initialState_def)
  have store: "todos ?s = sampleTodos d1 d2 d3" "filter_field ?s = All" "searchQuery ?s = []"
    by (simp_all add: mountEffect_def initialState_def)
  have a: "ids ?s = [str ''1'', str ''2'', str ''3'']" "length (todos ?s) = 3"
    "map text_field (filter (\<lambda>todo. completed todo) (todos ?s)) = [str ''Morning workout'']"
    "completedCount ?s = 1" "totalCount ?s = 3"
    by (simp_all add: ids_def completedCount_def totalCount_def store sampleTodos_def)
  have v: "toLowerCase [] = [] \<longrightarrow>
        filteredTodos toLowerCase ?s = todos ?s \<and> length (filteredTodos toLowerCase ?s) = 3"
    by (simp add: filteredTodos_def store matchesFilter_def matchesSearch_def includes_str_Nil)
      (simp add: sampleTodos_def)
  have w: "round64 (of_nat (completedCount ?s) / of_nat (totalCount ?s))
       = 6004799503160661 / 2 ^ 54" "progressWidth ?s = 2345624805922133 / 2 ^ 46"
    by (simp_all add: progressWidth_def a round64_third round64_width_third)
  from first store a v w show ?thesis by simp
qed

theorem mount_sample_store_witness:
  "ids (mountEffect 1700000000000 1700000000000 1700000000000 initialState)
     = [str ''1'', str ''2'', str ''3'']
   \<and> length (filteredTodos toLowerCaseLatinGreek
        (mountEffect 1700000000000 1700000000000 1700000000000 initialState)) = 3
   \<and> progressWidth (mountEffect 1700000000000 1700000000000 1700000000000 initialState)
       = 2345624805922133 / 2 ^ 46"
  using mount_sample_store [of 1700000000000 1700000000000 1700000000000 toLowerCaseLatinGreek]
    toLowerCaseLatinGreek_Nil
  by blast

end
